theory Spec2Isabelle
  imports
    Complex_Main
    "HOL-Library.AList"
    "HOL-Library.Multiset"
    "HOL-Library.Product_Lexorder"
begin

section \<open>Python values shared by the three programs\<close>

subsection \<open>Text: \<open>str(int)\<close>, \<open>int(str)\<close>, \<open>str.strip\<close>\<close>

text \<open>
  A Python \<open>str\<close> is modelled as a \<open>string\<close>. \<open>str_nat\<close> and \<open>str_int\<close> are
  \<open>str()\<close> on a non-negative and on any integer: the decimal digits, most significant
  first, with a leading minus sign for a negative number.
\<close>

definition digit_char :: "nat \<Rightarrow> char" where
  "digit_char d = char_of (48 + d)"

fun str_nat :: "nat \<Rightarrow> string" where
  "str_nat n = (if n < 10 then [digit_char n] else str_nat (n div 10) @ [digit_char (n mod 10)])"

declare str_nat.simps [simp del]

definition str_int :: "int \<Rightarrow> string" where
  "str_int i = (if i < 0 then CHR ''-'' # str_nat (nat (- i)) else str_nat (nat i))"

text \<open>
  \<open>str.strip()\<close> removes leading and trailing whitespace; the ASCII whitespace
  characters are modelled (tab, line feed, vertical tab, form feed, carriage return, the
  four separators \<open>0x1c\<close> to \<open>0x1f\<close> and the space).
\<close>

definition is_space :: "char \<Rightarrow> bool" where
  "is_space c = (let n = (of_char c :: nat) in (9 \<le> n \<and> n \<le> 13) \<or> (28 \<le> n \<and> n \<le> 32))"

definition strip :: "string \<Rightarrow> string" where
  "strip s = rev (dropWhile is_space (rev (dropWhile is_space s)))"

text \<open>
  \<open>int(s)\<close> on a string: surrounding whitespace is ignored, an optional sign is read,
  and what is left must be a non-empty run of decimal digits; anything else raises
  \<open>ValueError\<close>, which is \<open>None\<close> here. (Python also accepts single underscores
  between digits; the programs never write them and they are not modelled.)
\<close>

definition is_digit :: "char \<Rightarrow> bool" where
  "is_digit c = (let n = (of_char c :: nat) in 48 \<le> n \<and> n \<le> 57)"

definition digit_val :: "char \<Rightarrow> nat" where
  "digit_val c = of_char c - 48"

definition digits_val :: "string \<Rightarrow> nat" where
  "digits_val s = foldl (\<lambda>acc c. 10 * acc + digit_val c) 0 s"

definition parse_nat :: "string \<Rightarrow> nat option" where
  "parse_nat s = (if s \<noteq> [] \<and> list_all is_digit s then Some (digits_val s) else None)"

definition py_int :: "string \<Rightarrow> int option" where
  "py_int s =
     (case strip s of
        [] \<Rightarrow> None
      | c # cs \<Rightarrow>
          if c = CHR ''-'' then map_option (\<lambda>n. - int n) (parse_nat cs)
          else if c = CHR ''+'' then map_option int (parse_nat cs)
          else map_option int (parse_nat (c # cs)))"

subsection \<open>Decoded JSON and exceptions\<close>

text \<open>
  What \<open>json.loads\<close> returns: \<open>None\<close>, a bool, a number, a \<open>str\<close>, a \<open>list\<close> or a
  \<open>dict\<close> (an association list: Python dictionaries keep insertion order).
\<close>

datatype json =
    JNull
  | JBool bool
  | JNum int
  | JStr string
  | JArr "json list"
  | JObj "(string \<times> json) list"

text \<open>
  The exceptions the programs can meet. \<open>str_exn\<close> is \<open>str(e)\<close>: an
  \<open>HTTPException\<close> prints as \<open>status: detail\<close>, a \<open>KeyError\<close> as the \<open>repr\<close> of
  its key, the others as their message.
\<close>

datatype exn =
    HTTPException nat string
  | JSONDecodeError string
  | KeyError string
  | TypeError string
  | AttributeError string
  | MaskError string
  | UnboundLocalError string
  | ExternalError string

fun str_exn :: "exn \<Rightarrow> string" where
  "str_exn (HTTPException status detail) = str_nat status @ '': '' @ detail"
| "str_exn (JSONDecodeError msg) = msg"
| "str_exn (KeyError k) = [CHR 0x27] @ k @ [CHR 0x27]"
| "str_exn (TypeError msg) = msg"
| "str_exn (AttributeError msg) = msg"
| "str_exn (MaskError msg) = msg"
| "str_exn (UnboundLocalError msg) = msg"
| "str_exn (ExternalError msg) = msg"

text \<open>\<open>v[k]\<close> for a string key \<open>k\<close>, and iteration \<open>for x in v\<close>, on a decoded value.\<close>

fun py_getitem :: "json \<Rightarrow> string \<Rightarrow> exn + json" where
  "py_getitem (JObj kvs) k = (case map_of kvs k of None \<Rightarrow> Inl (KeyError k) | Some v \<Rightarrow> Inr v)"
| "py_getitem (JArr xs) k = Inl (TypeError ''list indices must be integers or slices, not str'')"
| "py_getitem (JStr s) k = Inl (TypeError ''string indices must be integers'')"
| "py_getitem v k = Inl (TypeError ''object is not subscriptable'')"

fun py_iter :: "json \<Rightarrow> exn + json list" where
  "py_iter (JArr xs) = Inr xs"
| "py_iter (JObj kvs) = Inr (map (\<lambda>kv. JStr (fst kv)) kvs)"
| "py_iter (JStr s) = Inr (map (\<lambda>c. JStr [c]) s)"
| "py_iter v = Inl (TypeError ''object is not iterable'')"

section \<open>Query service (\<open>main.py\<close>)\<close>

subsection \<open>\<open>clean_null_bytes\<close>\<close>

definition clean_null_bytes :: "string \<Rightarrow> string" where
  "clean_null_bytes text = filter (\<lambda>c. c \<noteq> CHR 0x00) text"

definition plan_response_text :: "string \<Rightarrow> string" where
  "plan_response_text reply = clean_null_bytes (strip reply)"

definition insight_response_text :: "string \<Rightarrow> string" where
  "insight_response_text reply = clean_null_bytes (strip reply)"

subsection \<open>\<open>POST /analyze\<close>\<close>

text \<open>
  The collaborators of the endpoint are parameters of the model: the language model
  (its \<open>.text\<close> reply to the planning prompt of a user query, and to the synthesis prompt
  of a user query and the retrieved data), \<open>json.loads\<close> (\<open>None\<close> is
  \<open>JSONDecodeError\<close>), the relational engine (\<open>DB_ENGINE.connect()\<close>, indexed by
  the number of relational results collected so far, and \<open>pd.read_sql\<close> followed by
  \<open>to_dict(orient="records")\<close>) and the vector collection (\<open>query(...)["documents"]\<close>).
  Every call made to one of them is recorded, in order, in \<open>calls\<close>, with its argument.
\<close>

record env =
  generate_plan :: "string \<Rightarrow> exn + string"
  json_loads :: "string \<Rightarrow> json option"
  db_connect :: "nat \<Rightarrow> exn option"
  read_sql :: "json \<Rightarrow> exn + json"
  chroma_query :: "json \<Rightarrow> exn + json"
  generate_insight :: "string \<Rightarrow> (string \<times> json) list \<Rightarrow> exn + string"

datatype call =
    PlanningCall string
  | JsonLoads string
  | DbConnect
  | SqlQuery json
  | VectorQuery json
  | SynthesisCall string "(string \<times> json) list"

record response =
  insight_text :: string
  data_for_charts :: "(string \<times> json) list"

record plan_state =
  retrieved_data :: "(string \<times> json) list"
  data_for_frontend :: "(string \<times> json) list"
  calls :: "call list"

text \<open>The keys \<open>f"sql_result_{len(data_for_frontend)}"\<close> and
  \<open>f"vector_result_{len(retrieved_data)}"\<close>.\<close>

definition sql_key :: "nat \<Rightarrow> string" where
  "sql_key i = ''sql_result_'' @ str_nat i"

definition vector_key :: "nat \<Rightarrow> string" where
  "vector_key i = ''vector_result_'' @ str_nat i"

text \<open>One iteration of \<open>for q in plan["queries"]\<close>; a dictionary store \<open>d[k] = v\<close> is
  \<open>AList.update\<close>. There is no \<open>else\<close> branch.\<close>

definition exec_query :: "env \<Rightarrow> json \<Rightarrow> plan_state \<Rightarrow> (exn \<times> call list) + plan_state" where
  "exec_query e q st =
     (case py_getitem q ''tool'' of
        Inl x \<Rightarrow> Inl (x, calls st)
      | Inr tool \<Rightarrow>
          if tool = JStr ''postgres'' then
            (case db_connect e (length (data_for_frontend st)) of
               Some x \<Rightarrow> Inl (x, calls st @ [DbConnect])
             | None \<Rightarrow>
                 (case py_getitem q ''query'' of
                    Inl x \<Rightarrow> Inl (x, calls st @ [DbConnect])
                  | Inr sql \<Rightarrow>
                      (case read_sql e sql of
                         Inl x \<Rightarrow> Inl (x, calls st @ [DbConnect, SqlQuery sql])
                       | Inr records \<Rightarrow>
                           Inr (st\<lparr>data_for_frontend :=
                                      AList.update
                                        (sql_key (length (data_for_frontend st)))
                                        records (data_for_frontend st),
                                    calls := calls st @ [DbConnect, SqlQuery sql]\<rparr>))))
          else if tool = JStr ''vector'' then
            (case py_getitem q ''query'' of
               Inl x \<Rightarrow> Inl (x, calls st)
             | Inr txt \<Rightarrow>
                 (case chroma_query e txt of
                    Inl x \<Rightarrow> Inl (x, calls st @ [VectorQuery txt])
                  | Inr documents \<Rightarrow>
                      Inr (st\<lparr>retrieved_data :=
                                 AList.update
                                   (vector_key (length (retrieved_data st)))
                                   documents (retrieved_data st),
                               calls := calls st @ [VectorQuery txt]\<rparr>)))
          else Inr st)"

fun run_plan :: "env \<Rightarrow> json list \<Rightarrow> plan_state \<Rightarrow> (exn \<times> call list) + plan_state" where
  "run_plan e [] st = Inr st"
| "run_plan e (q # qs) st =
     (case exec_query e q st of
        Inl xc \<Rightarrow> Inl xc
      | Inr st' \<Rightarrow> run_plan e qs st')"

text \<open>The body of the outer \<open>try\<close>: an exception with the calls made before it, or the
  response with all the calls.\<close>

definition analyze_body :: "env \<Rightarrow> string \<Rightarrow> (exn \<times> call list) + (response \<times> call list)" where
  "analyze_body e query =
     (case generate_plan e query of
        Inl x \<Rightarrow> Inl (x, [PlanningCall query])
      | Inr reply \<Rightarrow>
          (let cs0 = [PlanningCall query, JsonLoads (plan_response_text reply)]
           in case json_loads e (plan_response_text reply) of
                None \<Rightarrow> Inl (HTTPException 500 ''LLM did not return valid JSON plan.'', cs0)
              | Some plan \<Rightarrow>
                  (case py_getitem plan ''queries'' of
                     Inl x \<Rightarrow> Inl (x, cs0)
                   | Inr queries \<Rightarrow>
                       (case py_iter queries of
                          Inl x \<Rightarrow> Inl (x, cs0)
                        | Inr qs \<Rightarrow>
                            (case run_plan e qs
                                    \<lparr>retrieved_data = [], data_for_frontend = [], calls = cs0\<rparr> of
                               Inl xc \<Rightarrow> Inl xc
                             | Inr st \<Rightarrow>
                                 (let rd = AList.update ''structured_data''
                                             (JObj (data_for_frontend st)) (retrieved_data st);
                                      cs = calls st @ [SynthesisCall query rd]
                                  in case generate_insight e query rd of
                                       Inl x \<Rightarrow> Inl (x, cs)
                                     | Inr insight \<Rightarrow>
                                         Inr (\<lparr>insight_text = insight_response_text insight,
                                               data_for_charts = data_for_frontend st\<rparr>, cs)))))))"

text \<open>The endpoint: \<open>except Exception as e: raise HTTPException(500, str(e))\<close> around the
  body. \<open>Inl\<close> is the error response (status and detail).\<close>

definition analyze_query :: "env \<Rightarrow> string \<Rightarrow> ((nat \<times> string) + response) \<times> call list" where
  "analyze_query e query =
     (case analyze_body e query of
        Inl (x, cs) \<Rightarrow> (Inl (500, str_exn x), cs)
      | Inr (r, cs) \<Rightarrow> (Inr r, cs))"

fun is_db_call :: "call \<Rightarrow> bool" where
  "is_db_call DbConnect = True"
| "is_db_call (SqlQuery q) = True"
| "is_db_call (VectorQuery q) = True"
| "is_db_call c = False"

fun json_inputs :: "call list \<Rightarrow> string list" where
  "json_inputs [] = []"
| "json_inputs (JsonLoads t # cs) = t # json_inputs cs"
| "json_inputs (c # cs) = json_inputs cs"

text \<open>The plan entries of a request: the planning reply cleaned, decoded, indexed at
  \<open>"queries"\<close> and iterated.\<close>

definition plan_queries :: "env \<Rightarrow> string \<Rightarrow> json list option" where
  "plan_queries e query =
     (case generate_plan e query of
        Inl x \<Rightarrow> None
      | Inr reply \<Rightarrow>
          (case json_loads e (plan_response_text reply) of
             None \<Rightarrow> None
           | Some plan \<Rightarrow>
               (case py_getitem plan ''queries'' of
                  Inl x \<Rightarrow> None
                | Inr queries \<Rightarrow>
                    (case py_iter queries of Inl x \<Rightarrow> None | Inr qs \<Rightarrow> Some qs))))"

text \<open>The relational entries of a plan, and what \<open>read_sql\<close> returned for one of them.\<close>

definition is_postgres :: "json \<Rightarrow> bool" where
  "is_postgres q = (py_getitem q ''tool'' = Inr (JStr ''postgres''))"

definition is_vector :: "json \<Rightarrow> bool" where
  "is_vector q = (py_getitem q ''tool'' = Inr (JStr ''vector''))"

definition sql_result_of :: "env \<Rightarrow> json \<Rightarrow> json \<Rightarrow> bool" where
  "sql_result_of e q records =
     (case py_getitem q ''query'' of
        Inl x \<Rightarrow> False
      | Inr sql \<Rightarrow> read_sql e sql = Inr records)"

text \<open>The keys of \<open>data_for_frontend\<close> are \<open>sql_result_0\<close>, \<open>sql_result_1\<close>, ... in
  this order.\<close>

definition keys_ok :: "(string \<times> json) list \<Rightarrow> bool" where
  "keys_ok d = (map fst d = map sql_key [0..<length d])"

subsection \<open>\<open>GET /trajectories\<close>\<close>

text \<open>
  A row of \<open>argo_profiles\<close> with the columns the endpoint uses; the coordinate type is
  left open. The query \<open>SELECT platform_id, latitude, longitude ... ORDER BY platform_id,
  timestamp ASC\<close> sorts the table on the pair and projects; \<open>df.groupby('platform_id')\<close>
  yields the groups by ascending key, each with its rows in the order of the frame.
\<close>

record 'c argo_profile =
  platform_id :: int
  timestamp :: int
  latitude :: 'c
  longitude :: 'c

definition read_sql_trajectories :: "'c argo_profile list \<Rightarrow> (int \<times> 'c \<times> 'c) list" where
  "read_sql_trajectories tbl =
     map (\<lambda>r. (platform_id r, latitude r, longitude r))
       (sort_key (\<lambda>r. (platform_id r, timestamp r)) tbl)"

definition groupby_platform_id :: "(int \<times> 'c \<times> 'c) list \<Rightarrow> (int \<times> (int \<times> 'c \<times> 'c) list) list" where
  "groupby_platform_id df =
     map (\<lambda>k. (k, filter (\<lambda>r. fst r = k) df)) (sort (remdups (map fst df)))"

definition values_tolist :: "(int \<times> 'c \<times> 'c) list \<Rightarrow> 'c list list" where
  "values_tolist grp = map (\<lambda>r. [fst (snd r), snd (snd r)]) grp"

definition build_trajectories :: "(int \<times> (int \<times> 'c \<times> 'c) list) list \<Rightarrow> (string \<times> 'c list list) list" where
  "build_trajectories groups =
     foldl (\<lambda>trajectories g. AList.update (str_int (fst g)) (values_tolist (snd g)) trajectories)
       [] groups"

definition get_trajectories :: "(exn + 'c argo_profile list) \<Rightarrow> (nat \<times> string) + (string \<times> 'c list list) list" where
  "get_trajectories db =
     (case db of
        Inl x \<Rightarrow> Inl (500, str_exn x)
      | Inr tbl \<Rightarrow> Inr (build_trajectories (groupby_platform_id (read_sql_trajectories tbl))))"

subsection \<open>A sample request\<close>

text \<open>
  A concrete environment on which the endpoint can be run: the model answers the
  question \<open>bad\<close> with text that does not decode, and any other question with a plan
  of three entries (a vector search, an entry for an unknown tool, a relational query);
  both of its replies carry a null byte in their middle and a surrounding blank.
\<close>

definition sample_vector_entry :: json where
  "sample_vector_entry = JObj [(''tool'', JStr ''vector''), (''query'', JStr ''warm floats'')]"

definition sample_unknown_entry :: json where
  "sample_unknown_entry = JObj [(''tool'', JStr ''mongo''), (''query'', JStr ''find'')]"

definition sample_postgres_entry :: json where
  "sample_postgres_entry = JObj [(''tool'', JStr ''postgres''), (''query'', JStr ''SELECT 1'')]"

definition sample_records :: json where
  "sample_records = JArr [JObj [(''temperature'', JNum 12)]]"

definition sample_plan_reply :: string where
  "sample_plan_reply = ''pl'' @ [CHR 0x00] @ ''an ''"

definition sample_insight_reply :: string where
  "sample_insight_reply = '' wa'' @ [CHR 0x00] @ ''rm''"

definition sample_env :: env where
  "sample_env =
     \<lparr>generate_plan = (\<lambda>q. if q = ''bad'' then Inr ''oops'' else Inr sample_plan_reply),
      json_loads = (\<lambda>t. if t = ''plan''
                         then Some (JObj [(''queries'',
                                JArr [sample_vector_entry, sample_unknown_entry, sample_postgres_entry])])
                         else None),
      db_connect = (\<lambda>n. None),
      read_sql = (\<lambda>q. Inr sample_records),
      chroma_query = (\<lambda>q. Inr (JArr [JArr [JStr ''doc'']])),
      generate_insight = (\<lambda>q rd. Inr sample_insight_reply)\<rparr>"

definition sample_state :: plan_state where
  "sample_state = \<lparr>retrieved_data = [], data_for_frontend = [], calls = []\<rparr>"

text \<open>A sample table: platform 7 has rows at timestamps 10, 20 and 30, stored out of
  order and around a row of platform 5.\<close>

definition sample_table :: "int argo_profile list" where
  "sample_table =
     [\<lparr>platform_id = 7, timestamp = 30, latitude = 3, longitude = 33\<rparr>,
      \<lparr>platform_id = 7, timestamp = 10, latitude = 1, longitude = 11\<rparr>,
      \<lparr>platform_id = 5, timestamp = 15, latitude = 8, longitude = 88\<rparr>,
      \<lparr>platform_id = 7, timestamp = 20, latitude = 2, longitude = 22\<rparr>]"

text \<open>
  A second environment: the planning reply has no null byte, but the query string of its
  single relational entry is written with the six-character escape for the character
  zero, which \<open>json.loads\<close> decodes to a null byte. The engine rejects the statement
  with an error whose text quotes the statement, as \<open>str\<close> of a database error does.
\<close>

definition escaped_plan_reply :: string where
  \<open>escaped_plan_reply =
     ''{"queries": [{"tool": "postgres", "query": "SELEC '' @ [CHR 0x5C] @ ''u0000"}]}''\<close>

definition escaped_env :: env where
  "escaped_env =
     \<lparr>generate_plan = (\<lambda>q. Inr escaped_plan_reply),
      json_loads = (\<lambda>t. if t = escaped_plan_reply
                         then Some (JObj [(''queries'',
                                JArr [JObj [(''tool'', JStr ''postgres''),
                                            (''query'', JStr (''SELEC '' @ [CHR 0x00]))]])])
                         else None),
      db_connect = (\<lambda>n. None),
      read_sql = (\<lambda>q. case q of
                         JStr sql \<Rightarrow> Inl (ExternalError (''syntax error [SQL: '' @ sql @ '']''))
                       | _ \<Rightarrow> Inl (TypeError ''expected string'')),
      chroma_query = (\<lambda>q. Inr (JArr [])),
      generate_insight = (\<lambda>q rd. Inr ''unused'')\<rparr>"

section \<open>File ingestor (\<open>argo_load.py\<close>)\<close>

subsection \<open>Masked arrays and the per-cycle scalars\<close>

text \<open>
  A float value is NaN, an infinity or a finite number. An element of a masked array is
  its value with its mask bit (\<open>True\<close>: masked, the measurement is missing).
  \<open>np.any(~a.mask)\<close> asks for an unmasked element.

  The arithmetic of the arrays (float32 for the profile variables) is not fixed here: the
  sum of an array in numpy's summation order and the division of the total by the count
  are parameters, so that what is proved holds for the rounding, the overflow and the
  order of summation of the real run.
\<close>

datatype pyfloat = NaN | PosInf | NegInf | Fin real

type_synonym masked_array = "(pyfloat \<times> bool) list"

record float_ops =
  fsum :: "pyfloat list \<Rightarrow> pyfloat"
  fdiv :: "pyfloat \<Rightarrow> nat \<Rightarrow> pyfloat"

definition any_unmasked :: "masked_array \<Rightarrow> bool" where
  "any_unmasked a = list_ex (\<lambda>e. \<not> snd e) a"

text \<open>
  \<open>np.nanmean\<close> on a masked array, step by step. \<open>_replace_nan(a, 0)\<close> returns a
  copy of the array whose NaN data are replaced by zero, with the flags that say where
  they were. The sum of a masked array is \<open>self.filled(0).sum()\<close>: the masked
  positions count as zero. The count \<open>np.sum(~mask)\<close> is the sum of the negated flags
  as a masked array: the number of unmasked positions whose value is not NaN. The mean
  is the total divided by the count.
\<close>

definition replace_nan :: "masked_array \<Rightarrow> masked_array \<times> bool list" where
  "replace_nan a =
     (map (\<lambda>e. (if fst e = NaN then Fin 0 else fst e, snd e)) a, map (\<lambda>e. fst e = NaN) a)"

definition filled_zero :: "masked_array \<Rightarrow> pyfloat list" where
  "filled_zero a = map (\<lambda>e. if snd e then Fin 0 else fst e) a"

definition ma_sum :: "float_ops \<Rightarrow> masked_array \<Rightarrow> pyfloat" where
  "ma_sum ops a = fsum ops (filled_zero a)"

definition ma_count :: "masked_array \<Rightarrow> bool list \<Rightarrow> nat" where
  "ma_count a flags = length (filter (\<lambda>ef. \<not> snd (fst ef) \<and> \<not> snd ef) (zip a flags))"

definition nanmean :: "float_ops \<Rightarrow> masked_array \<Rightarrow> pyfloat" where
  "nanmean ops a =
     (let (arr, mask) = replace_nan a;
          cnt = ma_count a mask;
          tot = ma_sum ops arr
      in fdiv ops tot cnt)"

text \<open>\<open>float(np.nanmean(p)) if np.any(~p.mask) else None\<close>\<close>

definition profile_avg :: "float_ops \<Rightarrow> masked_array \<Rightarrow> pyfloat option" where
  "profile_avg ops p = (if any_unmasked p then Some (nanmean ops p) else None)"

text \<open>
  The valid elements of a profile are its unmasked ones. The specification's reading,
  for comparison: the mean of exactly the valid elements, in the same arithmetic, where
  a NaN among the elements makes their mean NaN.
\<close>

definition unmasked :: "masked_array \<Rightarrow> pyfloat list" where
  "unmasked a = map fst (filter (\<lambda>e. \<not> snd e) a)"

definition spec_mean_of_valid :: "float_ops \<Rightarrow> masked_array \<Rightarrow> pyfloat" where
  "spec_mean_of_valid ops a =
     (if NaN \<in> set (unmasked a) then NaN
      else fdiv ops (fsum ops (unmasked a)) (length (unmasked a)))"

text \<open>
  What the code computes, in closed form: the profile in which every masked element and
  every NaN counts as zero, and the unmasked elements that are not NaN.
\<close>

definition zero_invalid :: "masked_array \<Rightarrow> pyfloat list" where
  "zero_invalid a = map (\<lambda>e. if snd e \<or> fst e = NaN then Fin 0 else fst e) a"

definition valid_numbers :: "masked_array \<Rightarrow> pyfloat list" where
  "valid_numbers a = filter (\<lambda>v. v \<noteq> NaN) (unmasked a)"

text \<open>Two profiles with the same masks and the same values at the unmasked positions.\<close>

definition same_unmasked :: "masked_array \<Rightarrow> masked_array \<Rightarrow> bool" where
  "same_unmasked a b = list_all2 (\<lambda>e e'. snd e = snd e' \<and> (snd e \<or> fst e = fst e')) a b"

text \<open>
  An instance of the arithmetic for the sample runs: float32 where it is exact. A sum of
  integers whose absolute values add up to at most \<open>2 ^ 24\<close> is exact in any order, and
  so is a quotient that is such an integer; zero by zero is NaN. Elsewhere the instance
  says nothing.
\<close>

fun is_integer :: "pyfloat \<Rightarrow> bool" where
  "is_integer (Fin x) = (x = of_int \<lfloor>x\<rfloor>)"
| "is_integer v = False"

fun magnitude :: "pyfloat \<Rightarrow> real" where
  "magnitude (Fin x) = \<bar>x\<bar>"
| "magnitude v = 0"

fun finite_value :: "pyfloat \<Rightarrow> real" where
  "finite_value (Fin x) = x"
| "finite_value v = 0"

definition exact_sum :: "pyfloat list \<Rightarrow> pyfloat" where
  "exact_sum xs =
     (if list_all is_integer xs \<and> sum_list (map magnitude xs) \<le> 16777216
      then Fin (sum_list (map finite_value xs)) else undefined)"

definition exact_div :: "pyfloat \<Rightarrow> nat \<Rightarrow> pyfloat" where
  "exact_div t n =
     (if t = Fin 0 \<and> n = 0 then NaN
      else if 0 < n \<and> is_integer t \<and> magnitude t \<le> 16777216
              \<and> is_integer (Fin (finite_value t / real n))
      then Fin (finite_value t / real n) else undefined)"

definition sample_ops :: float_ops where
  "sample_ops = \<lparr>fsum = exact_sum, fdiv = exact_div\<rparr>"

subsection \<open>Cycles, rows and the table\<close>

text \<open>
  The arrays of a file share the profile dimension, so the values of cycle \<open>i\<close> are
  grouped: \<open>cycles[i]\<close> (\<open>None\<close> when the element is masked, on which \<open>int()\<close>
  raises \<open>MaskError\<close>), \<open>times[i]\<close> as rendered, \<open>float(latitudes[i])\<close>,
  \<open>float(longitudes[i])\<close>, and the three profiles \<open>pres[i, :]\<close>, \<open>temp[i, :]\<close>,
  \<open>psal[i, :]\<close>.
\<close>

record cycle_data =
  cycles_i :: "int option"
  times_i :: string
  latitudes_i :: pyfloat
  longitudes_i :: pyfloat
  pres_i :: masked_array
  temp_i :: masked_array
  psal_i :: masked_array

record profile_row =
  float_id :: string
  cycle_number :: int
  juld :: string
  lat :: pyfloat
  lon :: pyfloat
  pressure :: "pyfloat option"
  temperature :: "pyfloat option"
  salinity :: "pyfloat option"

definition make_row :: "float_ops \<Rightarrow> string \<Rightarrow> int \<Rightarrow> cycle_data \<Rightarrow> profile_row" where
  "make_row ops fid cycle c =
     \<lparr>float_id = fid, cycle_number = cycle, juld = times_i c,
      lat = latitudes_i c, lon = longitudes_i c,
      pressure = profile_avg ops (pres_i c),
      temperature = profile_avg ops (temp_i c),
      salinity = profile_avg ops (psal_i c)\<rparr>"

text \<open>
  The table \<open>argo_profile_data\<close>: rows with their \<open>id SERIAL PRIMARY KEY\<close>, the
  rows of the open transaction, and the sequence behind \<open>id\<close>. The \<open>INSERT\<close> names
  no id, so the sequence supplies it; the primary key is the only constraint of the
  table that looks at the rows already there. What the engine checks on the values of
  the new row alone (lengths, ranges, timestamp syntax) is the parameter \<open>accepts\<close>.
\<close>

record database =
  committed :: "(nat \<times> profile_row) list"
  pending :: "(nat \<times> profile_row) list"
  next_id :: nat

definition execute_insert :: "(profile_row \<Rightarrow> bool) \<Rightarrow> database \<Rightarrow> profile_row \<Rightarrow> exn + database" where
  "execute_insert accepts d r =
     (if \<not> accepts r then Inl (ExternalError ''DataError'')
      else if next_id d \<in> set (map fst (committed d @ pending d))
        then Inl (ExternalError ''UniqueViolation'')
      else Inr (d\<lparr>pending := pending d @ [(next_id d, r)], next_id := Suc (next_id d)\<rparr>))"

definition commit :: "database \<Rightarrow> database" where
  "commit d = d\<lparr>committed := committed d @ pending d, pending := []\<rparr>"

definition rollback :: "database \<Rightarrow> database" where
  "rollback d = d\<lparr>pending := []\<rparr>"

subsection \<open>\<open>process_nc_file\<close>\<close>

datatype log_line =
    AttemptingToInsert profile_row
  | ErrorOnCycle int string string
  | FatalError string string

record ingest_state =
  db :: database
  printed :: "log_line list"

text \<open>
  The body of the inner \<open>try\<close> for one cycle. The local variable \<open>cycle\<close> is
  threaded through the loop: it is unbound (\<open>None\<close>) until the first
  \<open>cycle = int(cycles[i])\<close> that succeeds, and keeps its last value afterwards. An
  exception comes with the variable and the state as they are when it is raised.
\<close>

definition cycle_body ::
  "float_ops \<Rightarrow> (profile_row \<Rightarrow> bool) \<Rightarrow> string \<Rightarrow> cycle_data \<Rightarrow> int option \<Rightarrow> ingest_state
     \<Rightarrow> (exn \<times> int option \<times> ingest_state) + (int option \<times> ingest_state)" where
  "cycle_body ops accepts fid c cycle st =
     (case cycles_i c of
        None \<Rightarrow> Inl (MaskError ''Cannot convert masked element to a Python int.'', cycle, st)
      | Some n \<Rightarrow>
          (let r = make_row ops fid n c;
               st1 = st\<lparr>printed := printed st @ [AttemptingToInsert r]\<rparr>
           in case execute_insert accepts (db st1) r of
                Inl x \<Rightarrow> Inl (x, Some n, st1)
              | Inr d \<Rightarrow> Inr (Some n, st1\<lparr>db := commit d\<rparr>)))"

text \<open>
  The loop with its handler: \<open>print(f"ERROR on Cycle {cycle} in ...: {e}")\<close> and
  \<open>conn.rollback()\<close>. Formatting the message reads \<open>cycle\<close>; when the variable is
  unbound that raises \<open>UnboundLocalError\<close> inside the handler, which leaves the loop.
\<close>

fun cycles_loop ::
  "float_ops \<Rightarrow> (profile_row \<Rightarrow> bool) \<Rightarrow> string \<Rightarrow> string \<Rightarrow> cycle_data list \<Rightarrow> int option \<Rightarrow> ingest_state
     \<Rightarrow> (exn \<times> ingest_state) + ingest_state" where
  "cycles_loop ops accepts fid nc [] cycle st = Inr st"
| "cycles_loop ops accepts fid nc (c # cs) cycle st =
     (case cycle_body ops accepts fid c cycle st of
        Inr (cycle', st') \<Rightarrow> cycles_loop ops accepts fid nc cs cycle' st'
      | Inl (x, cycle', st') \<Rightarrow>
          (case cycle' of
             None \<Rightarrow>
               Inl (UnboundLocalError
                      ''cannot access local variable 'cycle' where it is not associated with a value'',
                    st')
           | Some n \<Rightarrow>
               cycles_loop ops accepts fid nc cs cycle'
                 (st'\<lparr>printed := printed st' @ [ErrorOnCycle n nc (str_exn x)],
                      db := rollback (db st')\<rparr>)))"

text \<open>
  A file: its path and what opening it and reading its metadata gives, an exception or
  the float id with the cycles.
\<close>

record nc_contents =
  PLATFORM_NUMBER :: string
  profiles :: "cycle_data list"

record nc_file =
  nc_path :: string
  dataset :: "exn + nc_contents"

definition process_nc_file :: "float_ops \<Rightarrow> (profile_row \<Rightarrow> bool) \<Rightarrow> nc_file \<Rightarrow> ingest_state \<Rightarrow> ingest_state" where
  "process_nc_file ops accepts f st =
     (case dataset f of
        Inl x \<Rightarrow> st\<lparr>printed := printed st @ [FatalError (nc_path f) (str_exn x)]\<rparr>
      | Inr ds \<Rightarrow>
          (case cycles_loop ops accepts (PLATFORM_NUMBER ds) (nc_path f) (profiles ds) None st of
             Inr st' \<Rightarrow> st'
           | Inl (x, st') \<Rightarrow>
               st'\<lparr>printed := printed st' @ [FatalError (nc_path f) (str_exn x)]\<rparr>))"

text \<open>\<open>for file in os.listdir(folder): if file.endswith(".nc"): process_nc_file(...)\<close>\<close>

definition endswith :: "string \<Rightarrow> string \<Rightarrow> bool" where
  "endswith s suffix = (length suffix \<le> length s \<and> drop (length s - length suffix) s = suffix)"

definition ingest_folder :: "float_ops \<Rightarrow> (profile_row \<Rightarrow> bool) \<Rightarrow> nc_file list \<Rightarrow> ingest_state \<Rightarrow> ingest_state" where
  "ingest_folder ops accepts files st =
     foldl (\<lambda>s f. process_nc_file ops accepts f s) st (filter (\<lambda>f. endswith (nc_path f) ''.nc'') files)"

text \<open>
  The rows a file contributes: one per cycle whose number converts and whose row the
  engine accepts, unless the loop is left at the first cycle.
\<close>

definition cycle_row :: "float_ops \<Rightarrow> (profile_row \<Rightarrow> bool) \<Rightarrow> string \<Rightarrow> cycle_data \<Rightarrow> profile_row option" where
  "cycle_row ops accepts fid c =
     (case cycles_i c of
        None \<Rightarrow> None
      | Some n \<Rightarrow> if accepts (make_row ops fid n c) then Some (make_row ops fid n c) else None)"

definition loop_rows :: "float_ops \<Rightarrow> (profile_row \<Rightarrow> bool) \<Rightarrow> string \<Rightarrow> cycle_data list \<Rightarrow> profile_row list" where
  "loop_rows ops accepts fid cs =
     (case cs of
        [] \<Rightarrow> []
      | c # cs' \<Rightarrow> if cycles_i c = None then [] else List.map_filter (cycle_row ops accepts fid) cs)"

definition file_rows :: "float_ops \<Rightarrow> (profile_row \<Rightarrow> bool) \<Rightarrow> nc_file \<Rightarrow> profile_row list" where
  "file_rows ops accepts f =
     (case dataset f of
        Inl x \<Rightarrow> []
      | Inr ds \<Rightarrow> loop_rows ops accepts (PLATFORM_NUMBER ds) (profiles ds))"

text \<open>A table as the program leaves it: no open transaction, the sequence ahead of
  every id.\<close>

definition wf_db :: "database \<Rightarrow> bool" where
  "wf_db d = (pending d = [] \<and> list_all (\<lambda>ir. fst ir < next_id d) (committed d))"

subsection \<open>Sample files\<close>

definition good_cycle :: cycle_data where
  "good_cycle =
     \<lparr>cycles_i = Some 2, times_i = ''2020-01-02T00:00:00'',
      latitudes_i = Fin 10, longitudes_i = Fin 70,
      pres_i = [(Fin 5, False), (Fin 15, False), (Fin 99999, True)],
      temp_i = [(Fin 99999, True), (Fin 99999, True)],
      psal_i = [(NaN, False), (Fin 1, False)]\<rparr>"

definition masked_cycle :: cycle_data where
  "masked_cycle = good_cycle\<lparr>cycles_i := None\<rparr>"

definition sample_file :: nc_file where
  "sample_file =
     \<lparr>nc_path = ''a.nc'',
      dataset = Inr \<lparr>PLATFORM_NUMBER = ''2902746'', profiles = [good_cycle, masked_cycle, good_cycle]\<rparr>\<rparr>"

definition masked_first_file :: nc_file where
  "masked_first_file =
     \<lparr>nc_path = ''b.nc'',
      dataset = Inr \<lparr>PLATFORM_NUMBER = ''2902746'', profiles = [masked_cycle, good_cycle]\<rparr>\<rparr>"

definition empty_state :: ingest_state where
  "empty_state = \<lparr>db = \<lparr>committed = [], pending = [], next_id = 1\<rparr>, printed = []\<rparr>"

definition folder_rows :: "float_ops \<Rightarrow> (profile_row \<Rightarrow> bool) \<Rightarrow> nc_file list \<Rightarrow> profile_row list" where
  "folder_rows ops accepts files =
     concat (map (file_rows ops accepts) (filter (\<lambda>f. endswith (nc_path f) ''.nc'') files))"

section \<open>Summarization pipeline (\<open>sql_to_chromadb.py\<close>)\<close>

subsection \<open>Summarizing the rows of a page\<close>

text \<open>\<open>s.replace(old, new)\<close> for a non-empty \<open>old\<close>: the occurrences are replaced from
  left to right, without overlap.\<close>

function py_replace :: "string \<Rightarrow> string \<Rightarrow> string \<Rightarrow> string" where
  "py_replace old new [] = []"
| "py_replace old new (c # cs) =
     (if old \<noteq> [] \<and> take (length old) (c # cs) = old
      then new @ py_replace old new (drop (length old) (c # cs))
      else c # py_replace old new cs)"
  by pat_completeness auto
termination
  by (relation "measure (\<lambda>(old, new, s). length s)") auto

text \<open>\<open>d.get(key, default)\<close> on a decoded value: only a \<open>dict\<close> has \<open>get\<close>.\<close>

fun py_get :: "json \<Rightarrow> string \<Rightarrow> json \<Rightarrow> exn + json" where
  "py_get (JObj kvs) k dflt = Inr (case map_of kvs k of None \<Rightarrow> dflt | Some v \<Rightarrow> v)"
| "py_get v k dflt = Inl (AttributeError ''object has no attribute get'')"

text \<open>
  The collaborators of the pipeline: the page query (a row is represented by its
  \<open>to_json\<close> text, from which the prompt is built), the language model's \<open>.text\<close>
  reply to the prompt of a row, \<open>json.loads\<close>, and the embedding of a page's documents
  with their insertion into the collection (\<open>None\<close>: no exception).
\<close>

record pipeline_env =
  read_sql_query :: "int \<Rightarrow> exn + string list"
  generate_content :: "string \<Rightarrow> exn + string"
  loads :: "string \<Rightarrow> exn + json"
  encode_and_add :: "int \<Rightarrow> json list \<Rightarrow> exn option"

datatype out_line =
    Warning nat string
  | ErrorFetching string
  | NoMoreRecords
  | Indexed
  | CompletedPage int
  | CriticalError int string

definition cleaned_response :: "string \<Rightarrow> string" where
  "cleaned_response text = py_replace ''```'' [] (py_replace ''```json'' [] (strip text))"

definition failed_doc :: "nat \<Rightarrow> json" where
  "failed_doc index = JStr (''Documentation failed for record '' @ str_nat index @ ''.'')"

text \<open>The body of \<open>for index, row in df.iterrows()\<close>: the document appended for the row,
  and what is printed.\<close>

definition summarize_row :: "pipeline_env \<Rightarrow> nat \<Rightarrow> string \<Rightarrow> json \<times> out_line list" where
  "summarize_row e index record_json =
     (case generate_content e record_json of
        Inl x \<Rightarrow> (failed_doc index, [Warning index (str_exn x)])
      | Inr text \<Rightarrow>
          (case loads e (cleaned_response text) of
             Inl x \<Rightarrow> (failed_doc index, [Warning index (str_exn x)])
           | Inr gemini_output \<Rightarrow>
               (case py_get gemini_output ''summary'' (JStr ''Summary not available.'') of
                  Inl x \<Rightarrow> (failed_doc index, [Warning index (str_exn x)])
                | Inr summary \<Rightarrow> (summary, []))))"

fun summarize_rows :: "pipeline_env \<Rightarrow> nat \<Rightarrow> string list \<Rightarrow> json list \<times> out_line list" where
  "summarize_rows e index [] = ([], [])"
| "summarize_rows e index (row # rows) =
     (let (doc, out1) = summarize_row e index row;
          (docs, out2) = summarize_rows e (Suc index) rows
      in (doc # docs, out1 @ out2))"

text \<open>\<open>fetch_process_and_index_data\<close> for one page: the exception it raises, if any,
  with what it printed.\<close>

definition fetch_process_and_index_data :: "pipeline_env \<Rightarrow> int \<Rightarrow> exn option \<times> out_line list" where
  "fetch_process_and_index_data e page_number =
     (case read_sql_query e page_number of
        Inl x \<Rightarrow> (Some x, [ErrorFetching (str_exn x)])
      | Inr df \<Rightarrow>
          if df = [] then (None, [NoMoreRecords])
          else
            (let (summaries_for_chroma, out) = summarize_rows e 0 df
             in case encode_and_add e page_number summaries_for_chroma of
                  Some x \<Rightarrow> (Some x, out)
                | None \<Rightarrow> (None, out @ [Indexed])))"

subsection \<open>The checkpoint and the driver loop\<close>

text \<open>The progress file: absent (\<open>None\<close>) or its text.\<close>

definition get_start_page :: "string option \<Rightarrow> int" where
  "get_start_page progress_file =
     (case progress_file of
        None \<Rightarrow> 1
      | Some content \<Rightarrow>
          (case py_int (strip content) of
             None \<Rightarrow> 1
           | Some last_completed_page \<Rightarrow> last_completed_page + 1))"

definition log_completed_page :: "int \<Rightarrow> string option" where
  "log_completed_page page_number = Some (str_int page_number)"

record run_state =
  progress_file :: "string option"
  attempted :: "int list"
  printed_lines :: "out_line list"

fun driver_loop :: "pipeline_env \<Rightarrow> int list \<Rightarrow> run_state \<Rightarrow> run_state" where
  "driver_loop e [] st = st"
| "driver_loop e (page # pages) st =
     (case fetch_process_and_index_data e page of
        (None, out) \<Rightarrow>
          driver_loop e pages
            (st\<lparr>progress_file := log_completed_page page,
                attempted := attempted st @ [page],
                printed_lines := printed_lines st @ out @ [CompletedPage page]\<rparr>)
      | (Some x, out) \<Rightarrow>
          st\<lparr>attempted := attempted st @ [page],
             printed_lines := printed_lines st @ out @ [CriticalError page (str_exn x)]\<rparr>)"

text \<open>\<open>math.ceil(total_records / BATCH_SIZE)\<close> with \<open>BATCH_SIZE = 100\<close>, and the main
  block from a progress file and a row count.\<close>

definition total_pages :: "int \<Rightarrow> int" where
  "total_pages total_records = - ((- total_records) div 100)"

definition run_pipeline :: "pipeline_env \<Rightarrow> int \<Rightarrow> string option \<Rightarrow> run_state" where
  "run_pipeline e total_records pf =
     (let st = \<lparr>progress_file = pf, attempted = [], printed_lines = []\<rparr>
      in if total_records = 0 then st
         else driver_loop e [get_start_page pf..total_pages total_records] st)"

definition page_ok :: "pipeline_env \<Rightarrow> int \<Rightarrow> bool" where
  "page_ok e page = (fst (fetch_process_and_index_data e page) = None)"

subsection \<open>Sample pipeline runs\<close>

text \<open>Pages of one row each; the model's reply for a row is the row's text. The row
  \<open>no summary\<close> decodes to an object without the field, \<open>junk\<close> does not decode, the
  others decode to an object with a summary. Page 3 cannot be fetched.\<close>

definition sample_pipeline :: pipeline_env where
  "sample_pipeline =
     \<lparr>read_sql_query = (\<lambda>p. if p = 3 then Inl (ExternalError ''connection refused'')
                             else Inr [''row'', ''no summary'', ''junk'']),
      generate_content = (\<lambda>r. Inr r),
      loads = (\<lambda>t. if t = ''junk'' then Inl (JSONDecodeError ''Expecting value'')
                    else if t = ''no summary'' then Inr (JObj [(''region'', JStr ''Indian Ocean'')])
                    else Inr (JObj [(''summary'', JStr ''A float.'')])),
      encode_and_add = (\<lambda>p docs. None)\<rparr>"

definition failing_pipeline :: pipeline_env where
  "failing_pipeline = sample_pipeline\<lparr>read_sql_query := (\<lambda>p. Inl (ExternalError ''connection refused''))\<rparr>"

section \<open>Decimal text round trip\<close>

lemma digits_val_snoc: "digits_val (s @ [c]) = 10 * digits_val s + digit_val c"
  by (simp add: digits_val_def)

lemma digit_val_digit_char: "d < 10 \<Longrightarrow> digit_val (digit_char d) = d"
  by (simp add: digit_val_def digit_char_def)

lemma is_digit_digit_char: "d < 10 \<Longrightarrow> is_digit (digit_char d)"
  by (simp add: is_digit_def digit_char_def)

lemma str_nat_nonempty: "str_nat n \<noteq> []"
  by (subst str_nat.simps) simp

lemma str_nat_digits: "list_all is_digit (str_nat n)"
proof (induction n rule: str_nat.induct)
  case (1 n)
  show ?case
  proof (cases "n < 10")
    case True
    then show ?thesis by (subst str_nat.simps) (simp add: is_digit_digit_char)
  next
    case False
    with 1 show ?thesis by (subst str_nat.simps) (simp add: is_digit_digit_char)
  qed
qed

lemma digits_val_str_nat: "digits_val (str_nat n) = n"
proof (induction n rule: str_nat.induct)
  case (1 n)
  show ?case
  proof (cases "n < 10")
    case True
    then show ?thesis
      by (subst str_nat.simps) (simp add: digits_val_def digit_val_digit_char)
  next
    case False
    with 1 show ?thesis
      by (subst str_nat.simps) (simp add: digits_val_snoc digit_val_digit_char)
  qed
qed

lemma parse_nat_str_nat: "parse_nat (str_nat n) = Some n"
  by (simp add: parse_nat_def str_nat_nonempty str_nat_digits digits_val_str_nat)

lemma str_nat_inj: "str_nat m = str_nat n \<Longrightarrow> m = n"
  by (metis digits_val_str_nat)

section \<open>The analyze endpoint\<close>

lemma str_nat_500: "str_nat 500 = ''500''"
  by code_simp

lemma str_nat_0: "str_nat 0 = ''0''"
  by code_simp

lemma sample_plan_text: "plan_response_text sample_plan_reply = ''plan''"
  by (simp add: plan_response_text_def sample_plan_reply_def clean_null_bytes_def strip_def
      is_space_def)

lemma strip_sample_bad: "strip ''oops'' = ''oops''"
  by (simp add: strip_def is_space_def)

lemma sample_insight_text: "insight_response_text sample_insight_reply = ''warm''"
  by (simp add: insight_response_text_def sample_insight_reply_def clean_null_bytes_def
      strip_def is_space_def)

lemmas sample_defs =
  sample_env_def sample_vector_entry_def sample_unknown_entry_def sample_postgres_entry_def
  sample_records_def sample_state_def

lemma sample_plan_queries:
  "plan_queries sample_env ''q'' =
     Some [sample_vector_entry, sample_unknown_entry, sample_postgres_entry]"
  by (simp add: plan_queries_def sample_env_def sample_plan_text)

lemma sample_analyze:
  "fst (analyze_query sample_env ''q'') =
     Inr \<lparr>insight_text = ''warm'', data_for_charts = [(''sql_result_0'', sample_records)]\<rparr>"
  by (simp add: analyze_query_def analyze_body_def exec_query_def sample_defs
      sample_plan_text sample_insight_text sql_key_def vector_key_def str_nat_0)

text \<open>
  C3. When the planning reply does not decode as JSON, the endpoint answers with status
  500 and a detail that carries the text \<open>LLM did not return valid JSON plan.\<close> (the
  inner \<open>HTTPException\<close> is caught by the outer handler and printed with its
  status in front), and the calls made are the planning call and the decoding attempt
  only: no connection, no relational query and no vector query.
\<close>

theorem analyze_invalid_json_plan:
  assumes "generate_plan e query = Inr reply"
    and "json_loads e (plan_response_text reply) = None"
  shows "fst (analyze_query e query) = Inl (500, ''500: LLM did not return valid JSON plan.'')
       \<and> snd (analyze_query e query) = [PlanningCall query, JsonLoads (plan_response_text reply)]
       \<and> filter is_db_call (snd (analyze_query e query)) = []"
  using assms by (simp add: analyze_query_def analyze_body_def str_nat_500)

theorem analyze_invalid_json_plan_witness:
  "generate_plan sample_env ''bad'' = Inr ''oops''
   \<and> json_loads sample_env (plan_response_text ''oops'') = None
   \<and> fst (analyze_query sample_env ''bad'') =
       Inl (500, ''500: LLM did not return valid JSON plan.'')
   \<and> snd (analyze_query sample_env ''bad'') = [PlanningCall ''bad'', JsonLoads ''oops'']
   \<and> filter is_db_call (snd (analyze_query sample_env ''bad'')) = []"
proof -
  have h1: "generate_plan sample_env ''bad'' = Inr ''oops''"
    by (simp add: sample_env_def)
  have t: "plan_response_text ''oops'' = ''oops''"
    by (simp add: plan_response_text_def clean_null_bytes_def strip_sample_bad)
  have h2: "json_loads sample_env (plan_response_text ''oops'') = None"
    by (simp add: t sample_env_def)
  from analyze_invalid_json_plan [OF h1 h2] h1 h2 t show ?thesis by simp
qed

subsection \<open>Null bytes\<close>

lemma json_inputs_append: "json_inputs (xs @ ys) = json_inputs xs @ json_inputs ys"
  by (induction xs rule: json_inputs.induct) auto

lemma exec_query_json_inputs:
  "exec_query e q st = Inr st' \<Longrightarrow> json_inputs (calls st') = json_inputs (calls st)"
  by (auto simp: exec_query_def json_inputs_append split: sum.splits option.splits if_splits)

lemma exec_query_json_inputs_err:
  "exec_query e q st = Inl (x, cs) \<Longrightarrow> json_inputs cs = json_inputs (calls st)"
  by (auto simp: exec_query_def json_inputs_append split: sum.splits option.splits if_splits)

lemma run_plan_json_inputs:
  "run_plan e qs st = Inr st' \<Longrightarrow> json_inputs (calls st') = json_inputs (calls st)"
  by (induction qs arbitrary: st) (auto split: sum.splits dest: exec_query_json_inputs)

lemma run_plan_json_inputs_err:
  "run_plan e qs st = Inl (x, cs) \<Longrightarrow> json_inputs cs = json_inputs (calls st)"
  by (induction qs arbitrary: st)
     (auto split: sum.splits dest: exec_query_json_inputs exec_query_json_inputs_err)

lemma analyze_json_inputs:
  "generate_plan e query = Inr reply \<Longrightarrow>
   json_inputs (snd (analyze_query e query)) = [clean_null_bytes (strip reply)]"
  by (auto simp: analyze_query_def analyze_body_def Let_def json_inputs_append
      plan_response_text_def
      split: sum.splits option.splits prod.splits
      dest!: run_plan_json_inputs run_plan_json_inputs_err)

lemma analyze_json_inputs_none:
  "generate_plan e query = Inl x \<Longrightarrow> json_inputs (snd (analyze_query e query)) = []"
  by (simp add: analyze_query_def analyze_body_def)

lemma analyze_insight:
  "fst (analyze_query e query) = Inr resp \<Longrightarrow>
   \<exists>rd reply. last (snd (analyze_query e query)) = SynthesisCall query rd \<and>
              generate_insight e query rd = Inr reply \<and>
              insight_text resp = clean_null_bytes (strip reply)"
  by (auto simp: analyze_query_def analyze_body_def Let_def insight_response_text_def
      split: sum.splits option.splits prod.splits)

lemma clean_null_bytes_append:
  "clean_null_bytes (a @ b) = clean_null_bytes a @ clean_null_bytes b"
  by (simp add: clean_null_bytes_def)

lemma clean_null_bytes_single:
  "clean_null_bytes [c] = (if c = CHR 0x00 then [] else [c])"
  by (simp add: clean_null_bytes_def)

lemma clean_null_bytes_free: "CHR 0x00 \<notin> set (clean_null_bytes s)"
  by (simp add: clean_null_bytes_def)

text \<open>
  C8 (amended). \<open>clean_null_bytes\<close> removes the null bytes of a text and keeps every
  other character, in order (it distributes over concatenation, drops a null byte and
  keeps any other single character). In every request whose planning call returns, the
  one text handed to \<open>json.loads\<close> is the planning reply, stripped, with its null
  bytes removed. In every successful response \<open>insight_text\<close> is the reply to the
  synthesis call, stripped, with its null bytes removed. Both are therefore free of null
  bytes.
\<close>

theorem replies_cleaned_of_null_bytes:
  "(\<forall>a b. clean_null_bytes (a @ b) = clean_null_bytes a @ clean_null_bytes b)
   \<and> (\<forall>c. clean_null_bytes [c] = (if c = CHR 0x00 then [] else [c]))
   \<and> (\<forall>reply. generate_plan e query = Inr reply \<longrightarrow>
         json_inputs (snd (analyze_query e query)) = [clean_null_bytes (strip reply)])
   \<and> (\<forall>resp. fst (analyze_query e query) = Inr resp \<longrightarrow>
         (\<exists>rd reply. last (snd (analyze_query e query)) = SynthesisCall query rd \<and>
                    generate_insight e query rd = Inr reply \<and>
                    insight_text resp = clean_null_bytes (strip reply)))
   \<and> (\<forall>t \<in> set (json_inputs (snd (analyze_query e query))). CHR 0x00 \<notin> set t)
   \<and> (\<forall>resp. fst (analyze_query e query) = Inr resp \<longrightarrow> CHR 0x00 \<notin> set (insight_text resp))"
proof (intro conjI allI impI ballI)
  fix a b show "clean_null_bytes (a @ b) = clean_null_bytes a @ clean_null_bytes b"
    by (rule clean_null_bytes_append)
next
  fix c show "clean_null_bytes [c] = (if c = CHR 0x00 then [] else [c])"
    by (rule clean_null_bytes_single)
next
  fix reply assume "generate_plan e query = Inr reply"
  then show "json_inputs (snd (analyze_query e query)) = [clean_null_bytes (strip reply)]"
    by (rule analyze_json_inputs)
next
  fix resp assume "fst (analyze_query e query) = Inr resp"
  then show "\<exists>rd reply. last (snd (analyze_query e query)) = SynthesisCall query rd \<and>
                    generate_insight e query rd = Inr reply \<and>
                    insight_text resp = clean_null_bytes (strip reply)"
    by (rule analyze_insight)
next
  fix t assume t: "t \<in> set (json_inputs (snd (analyze_query e query)))"
  show "CHR 0x00 \<notin> set t"
  proof (cases "generate_plan e query")
    case (Inl x)
    with t analyze_json_inputs_none[OF Inl] show ?thesis by simp
  next
    case (Inr reply)
    with t analyze_json_inputs[OF Inr] have "t = clean_null_bytes (strip reply)" by simp
    then show ?thesis by (simp add: clean_null_bytes_free)
  qed
next
  fix resp assume "fst (analyze_query e query) = Inr resp"
  from analyze_insight[OF this] obtain reply where
    "insight_text resp = clean_null_bytes (strip reply)" by blast
  then show "CHR 0x00 \<notin> set (insight_text resp)" by (simp add: clean_null_bytes_free)
qed

lemma sample_calls:
  "snd (analyze_query sample_env ''q'') =
     [PlanningCall ''q'', JsonLoads ''plan'', VectorQuery (JStr ''warm floats''), DbConnect,
      SqlQuery (JStr ''SELECT 1''),
      SynthesisCall ''q''
        [(''vector_result_0'', JArr [JArr [JStr ''doc'']]),
         (''structured_data'', JObj [(''sql_result_0'', sample_records)])]]"
  by (simp add: analyze_query_def analyze_body_def exec_query_def sample_defs
      sample_plan_text sample_insight_text sql_key_def vector_key_def str_nat_0)

theorem replies_cleaned_of_null_bytes_witness:
  "generate_plan sample_env ''q'' = Inr sample_plan_reply
   \<and> sample_plan_reply = ''pl'' @ [CHR 0x00] @ ''an ''
   \<and> json_inputs (snd (analyze_query sample_env ''q'')) = [clean_null_bytes (strip sample_plan_reply)]
   \<and> clean_null_bytes (strip sample_plan_reply) = ''plan''
   \<and> fst (analyze_query sample_env ''q'') =
       Inr \<lparr>insight_text = ''warm'', data_for_charts = [(''sql_result_0'', sample_records)]\<rparr>
   \<and> generate_insight sample_env ''q''
        [(''vector_result_0'', JArr [JArr [JStr ''doc'']]),
         (''structured_data'', JObj [(''sql_result_0'', sample_records)])] = Inr sample_insight_reply
   \<and> sample_insight_reply = '' wa'' @ [CHR 0x00] @ ''rm''
   \<and> clean_null_bytes (strip sample_insight_reply) = ''warm''
   \<and> CHR 0x00 \<notin> set ''warm''"
proof -
  note th = replies_cleaned_of_null_bytes [of sample_env "''q''"]
  have g: "generate_plan sample_env ''q'' = Inr sample_plan_reply"
    by (simp add: sample_env_def)
  have i: "generate_insight sample_env ''q''
        [(''vector_result_0'', JArr [JArr [JStr ''doc'']]),
         (''structured_data'', JObj [(''sql_result_0'', sample_records)])] = Inr sample_insight_reply"
    by (simp add: sample_env_def)
  from th g have j: "json_inputs (snd (analyze_query sample_env ''q'')) =
      [clean_null_bytes (strip sample_plan_reply)]"
    by blast
  have p: "clean_null_bytes (strip sample_plan_reply) = ''plan''"
    using sample_plan_text by (simp add: plan_response_text_def)
  have w: "clean_null_bytes (strip sample_insight_reply) = ''warm''"
    using sample_insight_text by (simp add: insight_response_text_def)
  have n: "CHR 0x00 \<notin> set ''warm''" by simp
  show ?thesis
    by (intro conjI g sample_plan_reply_def j p sample_analyze i sample_insight_reply_def w n)
qed

text \<open>
  The sentence of the specification fails for the detail of an error response: it is
  \<open>str(e)\<close>, which is not cleaned. Here the planning reply is free of null bytes, the
  decoded query string is not, and the detail quotes it.
\<close>

theorem error_detail_with_null_byte:
  "generate_plan escaped_env ''q'' = Inr escaped_plan_reply
   \<and> CHR 0x00 \<notin> set escaped_plan_reply
   \<and> fst (analyze_query escaped_env ''q'') =
       Inl (500, ''syntax error [SQL: SELEC '' @ [CHR 0x00] @ '']'')
   \<and> CHR 0x00 \<in> set (''syntax error [SQL: SELEC '' @ [CHR 0x00] @ '']'')"
proof -
  have s: "strip escaped_plan_reply = escaped_plan_reply"
    by (simp add: escaped_plan_reply_def strip_def is_space_def)
  have c: "CHR 0x00 \<notin> set escaped_plan_reply"
    by (simp add: escaped_plan_reply_def)
  then have t: "plan_response_text escaped_plan_reply = escaped_plan_reply"
    by (auto simp: plan_response_text_def s clean_null_bytes_def filter_id_conv)
  have g: "generate_plan escaped_env ''q'' = Inr escaped_plan_reply"
    and l: "json_loads escaped_env escaped_plan_reply =
          Some (JObj [(''queries'',
                  JArr [JObj [(''tool'', JStr ''postgres''),
                              (''query'', JStr (''SELEC '' @ [CHR 0x00]))]])])"
    and d: "db_connect escaped_env 0 = None"
    and r: "read_sql escaped_env (JStr (''SELEC '' @ [CHR 0x00])) =
          Inl (ExternalError (''syntax error [SQL: '' @ (''SELEC '' @ [CHR 0x00]) @ '']''))"
    by (simp_all add: escaped_env_def)
  have "fst (analyze_query escaped_env ''q'') =
       Inl (500, ''syntax error [SQL: SELEC '' @ [CHR 0x00] @ '']'')"
    using r by (simp add: analyze_query_def analyze_body_def exec_query_def g t l d)
  with g c show ?thesis by simp
qed

subsection \<open>Entries for an unknown tool\<close>

lemma run_plan_append:
  "run_plan e (qs @ qs') st =
     (case run_plan e qs st of Inl xc \<Rightarrow> Inl xc | Inr st' \<Rightarrow> run_plan e qs' st')"
  by (induction qs arbitrary: st) (auto split: sum.splits)

text \<open>
  C10. A plan entry that has a tool tag other than \<open>postgres\<close> and \<open>vector\<close> is
  skipped: its iteration returns the state as it was (no call is added, no result is
  stored, no exception is raised), and the plan with the entry runs exactly as the plan
  without it, so the entries before and after it are executed in their order.
\<close>

theorem unknown_tool_entry_skipped:
  assumes "py_getitem q ''tool'' = Inr tool"
    and "tool \<noteq> JStr ''postgres''"
    and "tool \<noteq> JStr ''vector''"
  shows "exec_query e q st = Inr st
       \<and> run_plan e (qs @ q # qs') st = run_plan e (qs @ qs') st"
proof -
  have skip: "exec_query e q s = Inr s" for s
    using assms by (simp add: exec_query_def)
  then show ?thesis
    by (simp add: run_plan_append split: sum.splits)
qed

theorem unknown_tool_entry_skipped_witness:
  "py_getitem sample_unknown_entry ''tool'' = Inr (JStr ''mongo'')
   \<and> JStr ''mongo'' \<noteq> JStr ''postgres''
   \<and> JStr ''mongo'' \<noteq> JStr ''vector''
   \<and> exec_query sample_env sample_unknown_entry sample_state = Inr sample_state
   \<and> run_plan sample_env ([sample_vector_entry] @ sample_unknown_entry # [sample_postgres_entry])
        sample_state
     = run_plan sample_env ([sample_vector_entry] @ [sample_postgres_entry]) sample_state"
proof -
  have h1: "py_getitem sample_unknown_entry ''tool'' = Inr (JStr ''mongo'')"
    by (simp add: sample_unknown_entry_def)
  have h2: "JStr ''mongo'' \<noteq> JStr ''postgres''" and h3: "JStr ''mongo'' \<noteq> JStr ''vector''"
    by simp_all
  from unknown_tool_entry_skipped [OF h1 h2 h3, of sample_env sample_state
      "[sample_vector_entry]" "[sample_postgres_entry]"] h1
  show ?thesis by simp
qed

subsection \<open>What \<open>data_for_charts\<close> holds\<close>

lemma update_fresh: "k \<notin> fst ` set d \<Longrightarrow> AList.update k v d = d @ [(k, v)]"
  by (induction d) auto

lemma sql_key_inj: "sql_key i = sql_key j \<Longrightarrow> i = j"
  by (simp add: sql_key_def str_nat_inj)

lemma keys_ok_fresh: "keys_ok d \<Longrightarrow> sql_key (length d) \<notin> fst ` set d"
proof
  assume ok: "keys_ok d" and "sql_key (length d) \<in> fst ` set d"
  then have "sql_key (length d) \<in> set (map sql_key [0..<length d])"
    unfolding keys_ok_def by (metis set_map)
  then obtain i where "i < length d" "sql_key (length d) = sql_key i" by auto
  then show False using sql_key_inj by blast
qed

lemma keys_ok_snoc: "keys_ok d \<Longrightarrow> keys_ok (d @ [(sql_key (length d), v)])"
  by (simp add: keys_ok_def)

lemma exec_query_frontend:
  assumes "exec_query e q st = Inr st'" and "keys_ok (data_for_frontend st)"
  shows "(if is_postgres q
          then \<exists>r. sql_result_of e q r \<and>
                 data_for_frontend st' =
                   data_for_frontend st @ [(sql_key (length (data_for_frontend st)), r)]
          else data_for_frontend st' = data_for_frontend st)"
  using assms keys_ok_fresh[OF assms(2)]
  by (auto simp: exec_query_def is_postgres_def sql_result_of_def update_fresh
      split: sum.splits option.splits if_splits)

lemma run_plan_frontend:
  "run_plan e qs st = Inr st' \<Longrightarrow> keys_ok (data_for_frontend st) \<Longrightarrow>
   \<exists>rs. list_all2 (sql_result_of e) (filter is_postgres qs) rs \<and>
        map snd (data_for_frontend st') = map snd (data_for_frontend st) @ rs \<and>
        keys_ok (data_for_frontend st')"
proof (induction qs arbitrary: st)
  case Nil
  then show ?case by simp
next
  case (Cons q qs)
  from Cons.prems(1) obtain st1 where
    step: "exec_query e q st = Inr st1" and rest: "run_plan e qs st1 = Inr st'"
    by (auto split: sum.splits)
  note fr = exec_query_frontend[OF step Cons.prems(2)]
  show ?case
  proof (cases "is_postgres q")
    case True
    with fr obtain r where r: "sql_result_of e q r"
      and d1: "data_for_frontend st1 =
                 data_for_frontend st @ [(sql_key (length (data_for_frontend st)), r)]"
      by auto
    have "keys_ok (data_for_frontend st1)"
      using Cons.prems(2) d1 by (simp add: keys_ok_snoc)
    from Cons.IH[OF rest this] obtain rs where
      rs: "list_all2 (sql_result_of e) (filter is_postgres qs) rs"
          "map snd (data_for_frontend st') = map snd (data_for_frontend st1) @ rs"
          "keys_ok (data_for_frontend st')"
      by blast
    have "list_all2 (sql_result_of e) (filter is_postgres (q # qs)) (r # rs)"
      using True r rs(1) by simp
    moreover have "map snd (data_for_frontend st') = map snd (data_for_frontend st) @ (r # rs)"
      using rs(2) d1 by simp
    ultimately show ?thesis using rs(3) by blast
  next
    case False
    with fr have d1: "data_for_frontend st1 = data_for_frontend st" by simp
    with Cons.IH[OF rest] Cons.prems(2) False show ?thesis by simp
  qed
qed

text \<open>
  C4. In every successful response, \<open>data_for_charts\<close> is the list of what
  \<open>read_sql\<close> returned for the relational (\<open>postgres\<close>) entries of the plan, one
  value per such entry and in plan order, under the keys \<open>sql_result_0\<close>,
  \<open>sql_result_1\<close>, ...; the vector entries of the plan and the documents the vector
  collection returned for them contribute nothing to it.
\<close>

theorem data_for_charts_relational_only:
  assumes "fst (analyze_query e query) = Inr resp"
  shows "\<exists>qs rs. plan_queries e query = Some qs \<and>
           list_all2 (sql_result_of e) (filter is_postgres qs) rs \<and>
           data_for_charts resp = zip (map sql_key [0..<length rs]) rs"
proof -
  from assms obtain qs st where
    qs: "plan_queries e query = Some qs" and
    run: "run_plan e qs \<lparr>retrieved_data = [], data_for_frontend = [],
            calls = [PlanningCall query,
                     JsonLoads (plan_response_text (projr (generate_plan e query)))]\<rparr> = Inr st" and
    resp: "data_for_charts resp = data_for_frontend st"
    by (auto simp: analyze_query_def analyze_body_def plan_queries_def Let_def
        split: sum.splits option.splits prod.splits)
  from run_plan_frontend[OF run] obtain rs where
    rs: "list_all2 (sql_result_of e) (filter is_postgres qs) rs"
        "map snd (data_for_frontend st) = rs"
        "keys_ok (data_for_frontend st)"
    by (auto simp: keys_ok_def)
  have "length (data_for_frontend st) = length rs" using rs(2) by (metis length_map)
  then have "map fst (data_for_frontend st) = map sql_key [0..<length rs]"
    using rs(3) by (simp add: keys_ok_def)
  then have "data_for_frontend st = zip (map sql_key [0..<length rs]) rs"
    using rs(2) by (metis zip_map_fst_snd)
  with qs rs(1) resp show ?thesis by auto
qed

theorem data_for_charts_relational_only_witness:
  "fst (analyze_query sample_env ''q'') =
     Inr \<lparr>insight_text = ''warm'', data_for_charts = [(''sql_result_0'', sample_records)]\<rparr>
   \<and> (\<exists>qs rs. plan_queries sample_env ''q'' = Some qs \<and>
           list_all2 (sql_result_of sample_env) (filter is_postgres qs) rs \<and>
           [(''sql_result_0'', sample_records)] = zip (map sql_key [0..<length rs]) rs)"
  using data_for_charts_relational_only [OF sample_analyze] sample_analyze by simp

section \<open>The trajectories endpoint\<close>

lemma str_int_inj: "str_int i = str_int j \<Longrightarrow> i = j"
proof -
  have nodash: "CHR ''-'' # s \<noteq> str_nat n" for s n
  proof
    assume "CHR ''-'' # s = str_nat n"
    with str_nat_digits[of n] have "is_digit CHR ''-''" by (cases "str_nat n") auto
    then show False by (simp add: is_digit_def)
  qed
  assume eq: "str_int i = str_int j"
  show ?thesis
  proof (cases "i < 0"; cases "j < 0")
    assume "i < 0" "j < 0"
    with eq have "nat (- i) = nat (- j)" by (simp add: str_int_def str_nat_inj)
    with \<open>i < 0\<close> \<open>j < 0\<close> show ?thesis by simp
  next
    assume "i < 0" "\<not> j < 0"
    with eq nodash show ?thesis by (simp add: str_int_def)
  next
    assume "\<not> i < 0" "j < 0"
    with eq nodash[of "str_nat (nat (- j))" "nat i"] show ?thesis by (simp add: str_int_def)
  next
    assume "\<not> i < 0" "\<not> j < 0"
    with eq have "nat i = nat j" by (simp add: str_int_def str_nat_inj)
    with \<open>\<not> i < 0\<close> \<open>\<not> j < 0\<close> show ?thesis by simp
  qed
qed

lemma insort_key_same:
  "\<forall>y \<in> set ys. (f x \<le> f y) = (g x \<le> g y) \<Longrightarrow> insort_key f x ys = insort_key g x ys"
  by (induction ys) auto

lemma sort_key_same:
  "\<forall>x \<in> set xs. \<forall>y \<in> set xs. (f x \<le> f y) = (g x \<le> g y) \<Longrightarrow> sort_key f xs = sort_key g xs"
proof (induction xs)
  case Nil
  then show ?case by simp
next
  case (Cons x xs)
  then have "sort_key f xs = sort_key g xs" by simp
  moreover have "insort_key f x (sort_key g xs) = insort_key g x (sort_key g xs)"
    using Cons.prems by (intro insort_key_same) simp
  ultimately show ?case by simp
qed

lemma platform_rows_sorted:
  "filter (\<lambda>r. platform_id r = p) (sort_key (\<lambda>r. (platform_id r, timestamp r)) tbl)
   = sort_key timestamp (filter (\<lambda>r. platform_id r = p) tbl)"
proof -
  have "filter (\<lambda>r. platform_id r = p) (sort_key (\<lambda>r. (platform_id r, timestamp r)) tbl)
        = sort_key (\<lambda>r. (platform_id r, timestamp r)) (filter (\<lambda>r. platform_id r = p) tbl)"
    by (rule filter_sort)
  also have "\<dots> = sort_key timestamp (filter (\<lambda>r. platform_id r = p) tbl)"
    by (rule sort_key_same) auto
  finally show ?thesis .
qed

lemma group_of_platform:
  "values_tolist (filter (\<lambda>r. fst r = p) (read_sql_trajectories tbl))
   = map (\<lambda>r. [latitude r, longitude r]) (sort_key timestamp (filter (\<lambda>r. platform_id r = p) tbl))"
proof -
  have "filter (\<lambda>r. fst r = p) (read_sql_trajectories tbl)
        = map (\<lambda>r. (platform_id r, latitude r, longitude r))
            (filter (\<lambda>r. platform_id r = p) (sort_key (\<lambda>r. (platform_id r, timestamp r)) tbl))"
    by (simp add: read_sql_trajectories_def filter_map comp_def)
  then show ?thesis
    by (simp add: values_tolist_def platform_rows_sorted comp_def)
qed

lemma build_fold:
  "distinct ks \<Longrightarrow> str_int ` set ks \<inter> fst ` set acc = {} \<Longrightarrow>
   foldl (\<lambda>trajectories g. AList.update (str_int (fst g)) (values_tolist (snd g)) trajectories)
     acc (map (\<lambda>k. (k, grp k)) ks)
   = acc @ map (\<lambda>k. (str_int k, values_tolist (grp k))) ks"
proof (induction ks arbitrary: acc)
  case Nil
  then show ?case by simp
next
  case (Cons k ks)
  have fresh: "str_int k \<notin> fst ` set acc" using Cons.prems(2) by auto
  have "str_int ` set ks \<inter> fst ` set (acc @ [(str_int k, values_tolist (grp k))]) = {}"
    using Cons.prems by (auto dest: str_int_inj)
  with Cons.IH[of "acc @ [(str_int k, values_tolist (grp k))]"] Cons.prems(1) fresh
  show ?case by (simp add: update_fresh)
qed

lemma trajectories_eq:
  "build_trajectories (groupby_platform_id (read_sql_trajectories tbl))
   = map (\<lambda>k. (str_int k, values_tolist (filter (\<lambda>r. fst r = k) (read_sql_trajectories tbl))))
       (sort (remdups (map fst (read_sql_trajectories tbl))))"
  unfolding build_trajectories_def groupby_platform_id_def
  using build_fold[of "sort (remdups (map fst (read_sql_trajectories tbl)))" "[]"]
  by simp

lemma keys_trajectories: "set (map fst (read_sql_trajectories tbl)) = platform_id ` set tbl"
  by (auto simp: read_sql_trajectories_def image_iff)

lemma map_of_str_int:
  "map_of (map (\<lambda>k. (str_int k, h k)) ks) (str_int p) = (if p \<in> set ks then Some (h p) else None)"
  by (induction ks) (auto dest: str_int_inj)


lemma read_sql_trajectories_perm:
  assumes "mset tbl' = mset tbl"
    and "inj_on (\<lambda>r. (platform_id r, timestamp r)) (set tbl)"
  shows "read_sql_trajectories tbl' = read_sql_trajectories tbl"
proof -
  let ?f = "\<lambda>r. (platform_id r, timestamp r)"
  have "set tbl' = set tbl" using assms(1) by (rule mset_eq_setD)
  with assms(2) have inj: "inj_on ?f (set tbl')" by simp
  have m: "mset tbl' = mset (sort_key ?f tbl)" using assms(1) by simp
  have srt: "sorted (map ?f (sort_key ?f tbl))" by simp
  have "sort_key ?f tbl' = sort_key ?f tbl"
    by (rule sort_key_inj_key_eq[OF m inj srt])
  then show ?thesis by (simp add: read_sql_trajectories_def)
qed

lemma get_trajectories_perm:
  assumes "mset tbl' = mset tbl"
    and "inj_on (\<lambda>r. (platform_id r, timestamp r)) (set tbl)"
  shows "get_trajectories (Inr tbl') = get_trajectories (Inr tbl)"
  using read_sql_trajectories_perm[OF assms] by (simp add: get_trajectories_def)

text \<open>
  C5. On a successful request the response has one key per platform id of the table,
  the id printed as a string, each key once; the value at a platform's key is the list
  of the [latitude, longitude] pairs of that platform's rows taken in ascending
  timestamp order, whatever the order of the rows in the table: the rows listed are a
  rearrangement of the platform's rows whose timestamps are sorted. When no two rows of
  a platform share a timestamp, storing the same rows in another order gives the same
  response.
\<close>

theorem get_trajectories_by_timestamp:
  "(\<exists>traj. get_trajectories (Inr tbl) = Inr traj \<and>
      fst ` set traj = str_int ` platform_id ` set tbl \<and>
      distinct (map fst traj) \<and>
      (\<forall>p \<in> platform_id ` set tbl.
         map_of traj (str_int p) =
           Some (map (\<lambda>r. [latitude r, longitude r])
                  (sort_key timestamp (filter (\<lambda>r. platform_id r = p) tbl))) \<and>
         sorted (map timestamp (sort_key timestamp (filter (\<lambda>r. platform_id r = p) tbl))) \<and>
         mset (sort_key timestamp (filter (\<lambda>r. platform_id r = p) tbl)) =
           mset (filter (\<lambda>r. platform_id r = p) tbl)))
   \<and> (\<forall>tbl'. mset tbl' = mset tbl \<and> inj_on (\<lambda>r. (platform_id r, timestamp r)) (set tbl) \<longrightarrow>
         get_trajectories (Inr tbl') = get_trajectories (Inr tbl))"
proof -
  let ?df = "read_sql_trajectories tbl"
  let ?ks = "sort (remdups (map fst ?df))"
  let ?traj = "build_trajectories (groupby_platform_id ?df)"
  have ks: "set ?ks = platform_id ` set tbl"
    using keys_trajectories[of tbl] by simp
  have eq: "?traj = map (\<lambda>k. (str_int k, values_tolist (filter (\<lambda>r. fst r = k) ?df))) ?ks"
    by (rule trajectories_eq)
  have keys: "map fst ?traj = map str_int ?ks"
    by (simp add: eq comp_def)
  have "distinct (map str_int ?ks)"
    by (simp add: distinct_map inj_on_def str_int_inj)
  with keys have d: "distinct (map fst ?traj)" by simp
  have k2: "fst ` set ?traj = str_int ` platform_id ` set tbl"
    using keys ks by (metis set_map)
  have "map_of ?traj (str_int p) =
           Some (map (\<lambda>r. [latitude r, longitude r])
                  (sort_key timestamp (filter (\<lambda>r. platform_id r = p) tbl)))"
    if "p \<in> platform_id ` set tbl" for p
    using that ks by (simp add: eq map_of_str_int group_of_platform)
  then have first: "\<exists>traj. get_trajectories (Inr tbl) = Inr traj \<and>
      fst ` set traj = str_int ` platform_id ` set tbl \<and>
      distinct (map fst traj) \<and>
      (\<forall>p \<in> platform_id ` set tbl.
         map_of traj (str_int p) =
           Some (map (\<lambda>r. [latitude r, longitude r])
                  (sort_key timestamp (filter (\<lambda>r. platform_id r = p) tbl))) \<and>
         sorted (map timestamp (sort_key timestamp (filter (\<lambda>r. platform_id r = p) tbl))) \<and>
         mset (sort_key timestamp (filter (\<lambda>r. platform_id r = p) tbl)) =
           mset (filter (\<lambda>r. platform_id r = p) tbl))"
    using d k2 by (simp add: get_trajectories_def)
  have second: "\<forall>tbl'. mset tbl' = mset tbl \<and>
        inj_on (\<lambda>r. (platform_id r, timestamp r)) (set tbl) \<longrightarrow>
      get_trajectories (Inr tbl') = get_trajectories (Inr tbl)"
  proof (intro allI impI)
    fix tbl'
    assume a: "mset tbl' = mset tbl \<and> inj_on (\<lambda>r. (platform_id r, timestamp r)) (set tbl)"
    show "get_trajectories (Inr tbl') = get_trajectories (Inr tbl)"
      by (rule get_trajectories_perm[OF conjunct1[OF a] conjunct2[OF a]])
  qed
  from first second show ?thesis by (rule conjI)
qed

lemma str_int_7: "str_int 7 = ''7''"
  by code_simp

lemma str_int_5: "str_int 5 = ''5''"
  by code_simp

lemma sample_sorted:
  "sort_key (\<lambda>r. (platform_id r, timestamp r)) sample_table =
     [\<lparr>platform_id = 5, timestamp = 15, latitude = 8, longitude = 88\<rparr>,
      \<lparr>platform_id = 7, timestamp = 10, latitude = 1, longitude = 11\<rparr>,
      \<lparr>platform_id = 7, timestamp = 20, latitude = 2, longitude = 22\<rparr>,
      \<lparr>platform_id = 7, timestamp = 30, latitude = 3, longitude = 33\<rparr>]"
  by (simp add: sample_table_def less_eq_prod_def)

lemma sample_df:
  "read_sql_trajectories sample_table = [(5, 8, 88), (7, 1, 11), (7, 2, 22), (7, 3, 33)]"
  by (simp add: read_sql_trajectories_def sample_sorted)

lemma sample_groups:
  "groupby_platform_id [(5, 8, 88), (7, 1, 11), (7, 2, 22), (7, 3, 33 :: int)] =
     [(5 :: int, [(5, 8, 88)]), (7, [(7, 1, 11), (7, 2, 22), (7, 3, 33)])]"
  by (simp add: groupby_platform_id_def)

lemma sample_trajectories:
  "get_trajectories (Inr sample_table) =
     Inr [(''5'', [[8, 88]]), (''7'', [[1, 11], [2, 22], [3, 33]])]"
  by (simp add: get_trajectories_def sample_df sample_groups build_trajectories_def
      values_tolist_def str_int_7 str_int_5)

lemma sample_platform_7:
  "sort_key timestamp (filter (\<lambda>r. platform_id r = 7) sample_table) =
     [\<lparr>platform_id = 7, timestamp = 10, latitude = 1, longitude = 11\<rparr>,
      \<lparr>platform_id = 7, timestamp = 20, latitude = 2, longitude = 22\<rparr>,
      \<lparr>platform_id = 7, timestamp = 30, latitude = 3, longitude = 33\<rparr>]"
  by (simp add: sample_table_def)

theorem get_trajectories_by_timestamp_witness:
  "get_trajectories (Inr sample_table) =
     Inr [(''5'', [[8, 88]]), (''7'', [[1, 11], [2, 22], [3, 33]])]
   \<and> 7 \<in> platform_id ` set sample_table
   \<and> map_of [(''5'', [[8, 88]]), (''7'', [[1, 11], [2, 22], [3, 33 :: int]])] (str_int 7) =
       Some (map (\<lambda>r. [latitude r, longitude r])
              (sort_key timestamp (filter (\<lambda>r. platform_id r = 7) sample_table)))
   \<and> map timestamp (sort_key timestamp (filter (\<lambda>r. platform_id r = 7) sample_table)) =
       [10, 20, 30]"
proof -
  have m: "7 \<in> platform_id ` set sample_table"
    by (simp add: sample_table_def)
  from get_trajectories_by_timestamp [of sample_table, THEN conjunct1] obtain traj where
    ok: "get_trajectories (Inr sample_table) = Inr traj" and
    each: "\<forall>p \<in> platform_id ` set sample_table.
         map_of traj (str_int p) =
           Some (map (\<lambda>r. [latitude r, longitude r])
                  (sort_key timestamp (filter (\<lambda>r. platform_id r = p) sample_table))) \<and>
         sorted (map timestamp (sort_key timestamp (filter (\<lambda>r. platform_id r = p) sample_table))) \<and>
         mset (sort_key timestamp (filter (\<lambda>r. platform_id r = p) sample_table)) =
           mset (filter (\<lambda>r. platform_id r = p) sample_table)"
    by blast
  from ok have traj: "traj = [(''5'', [[8, 88]]), (''7'', [[1, 11], [2, 22], [3, 33]])]"
    by (simp add: sample_trajectories)
  from each m have
    "map_of traj (str_int 7) =
       Some (map (\<lambda>r. [latitude r, longitude r])
              (sort_key timestamp (filter (\<lambda>r. platform_id r = 7) sample_table)))"
    by blast
  with traj m sample_trajectories show ?thesis
    by (simp only: sample_platform_7 list.map argo_profile.simps)
qed

section \<open>The ingestor\<close>

subsection \<open>The stored scalars\<close>

lemma any_unmasked_iff: "any_unmasked p = (\<not> list_all snd p)"
  by (induction p) (auto simp: any_unmasked_def)

lemma filled_zero_replace_nan: "filled_zero (fst (replace_nan p)) = zero_invalid p"
  by (induction p) (auto simp: filled_zero_def replace_nan_def zero_invalid_def)

lemma ma_count_replace_nan: "ma_count p (snd (replace_nan p)) = length (valid_numbers p)"
  by (induction p) (auto simp: ma_count_def replace_nan_def valid_numbers_def unmasked_def)

lemma nanmean_closed_form:
  "nanmean ops p = fdiv ops (fsum ops (zero_invalid p)) (length (valid_numbers p))"
  using filled_zero_replace_nan[of p] ma_count_replace_nan[of p]
  by (cases "replace_nan p") (simp add: nanmean_def ma_sum_def)

lemma same_unmasked_zero_invalid: "same_unmasked p p' \<Longrightarrow> zero_invalid p = zero_invalid p'"
  unfolding same_unmasked_def
  by (induction p p' rule: list_all2_induct) (auto simp: zero_invalid_def)

lemma same_unmasked_valid_numbers: "same_unmasked p p' \<Longrightarrow> valid_numbers p = valid_numbers p'"
  unfolding same_unmasked_def
  by (induction p p' rule: list_all2_induct) (auto simp: valid_numbers_def unmasked_def)

lemma same_unmasked_any: "same_unmasked p p' \<Longrightarrow> any_unmasked p = any_unmasked p'"
  unfolding same_unmasked_def
  by (induction p p' rule: list_all2_induct) (auto simp: any_unmasked_def)

lemma profile_avg_same_unmasked: "same_unmasked p p' \<Longrightarrow> profile_avg ops p = profile_avg ops p'"
  by (simp add: profile_avg_def nanmean_closed_form same_unmasked_zero_invalid
      same_unmasked_valid_numbers same_unmasked_any)

lemma all_valid_numbers:
  "list_all (\<lambda>e. \<not> snd e \<and> fst e \<noteq> NaN) p \<Longrightarrow>
   zero_invalid p = unmasked p \<and> valid_numbers p = unmasked p"
  by (induction p) (auto simp: zero_invalid_def valid_numbers_def unmasked_def)

lemma profile_avg_all_valid:
  assumes "list_all (\<lambda>e. \<not> snd e \<and> fst e \<noteq> NaN) p" and "p \<noteq> []"
  shows "profile_avg ops p = Some (spec_mean_of_valid ops p)"
proof -
  from assms(1) have v: "zero_invalid p = unmasked p" "valid_numbers p = unmasked p"
    using all_valid_numbers by blast+
  from assms(1) have n: "NaN \<notin> set (unmasked p)"
    by (induction p) (auto simp: unmasked_def)
  from assms have u: "any_unmasked p"
    by (cases p) (auto simp: any_unmasked_def)
  show ?thesis
    by (simp add: profile_avg_def u nanmean_closed_form v spec_mean_of_valid_def n)
qed

text \<open>
  C1 (amended). In the row built for a cycle, each of pressure, temperature and salinity
  is the scalar of the cycle's profile of that variable. The scalar is absent when every
  element of the profile is masked. Otherwise it is what \<open>np.nanmean\<close> returns in the
  arithmetic of the array: the sum of the profile in which every masked element and
  every NaN counts as zero, divided by the number of unmasked elements that are not
  NaN. The data under the mask never influence it: two profiles with the same masks and
  the same unmasked values give the same scalar. On a profile with no masked element and
  no NaN it is the mean of exactly the elements.
\<close>

theorem stored_scalars_nanmean_of_valid_numbers:
  "pressure (make_row ops fid n c) = profile_avg ops (pres_i c)
   \<and> temperature (make_row ops fid n c) = profile_avg ops (temp_i c)
   \<and> salinity (make_row ops fid n c) = profile_avg ops (psal_i c)
   \<and> (\<forall>p. list_all snd p \<longrightarrow> profile_avg ops p = None)
   \<and> (\<forall>p. \<not> list_all snd p \<longrightarrow>
         profile_avg ops p =
           Some (fdiv ops (fsum ops (zero_invalid p)) (length (valid_numbers p))))
   \<and> (\<forall>p p'. same_unmasked p p' \<longrightarrow> profile_avg ops p = profile_avg ops p')
   \<and> (\<forall>p. list_all (\<lambda>e. \<not> snd e \<and> fst e \<noteq> NaN) p \<and> p \<noteq> [] \<longrightarrow>
         profile_avg ops p = Some (spec_mean_of_valid ops p))"
proof (intro conjI allI impI)
  show "pressure (make_row ops fid n c) = profile_avg ops (pres_i c)"
    and "temperature (make_row ops fid n c) = profile_avg ops (temp_i c)"
    and "salinity (make_row ops fid n c) = profile_avg ops (psal_i c)"
    by (simp_all add: make_row_def)
next
  fix p :: masked_array
  assume "list_all snd p"
  then show "profile_avg ops p = None"
    by (simp add: profile_avg_def any_unmasked_iff)
next
  fix p :: masked_array
  assume "\<not> list_all snd p"
  then show "profile_avg ops p =
      Some (fdiv ops (fsum ops (zero_invalid p)) (length (valid_numbers p)))"
    by (simp add: profile_avg_def any_unmasked_iff nanmean_closed_form)
next
  fix p p' :: masked_array
  assume "same_unmasked p p'"
  then show "profile_avg ops p = profile_avg ops p'"
    by (rule profile_avg_same_unmasked)
next
  fix p :: masked_array
  assume "list_all (\<lambda>e. \<not> snd e \<and> fst e \<noteq> NaN) p \<and> p \<noteq> []"
  then show "profile_avg ops p = Some (spec_mean_of_valid ops p)"
    by (simp add: profile_avg_all_valid)
qed

lemma exact_sum_5_15_0: "exact_sum [Fin 5, Fin 15, Fin 0] = Fin 20"
  by (simp add: exact_sum_def)

lemma exact_sum_0_1: "exact_sum [Fin 0, Fin 1] = Fin 1"
  by (simp add: exact_sum_def)

lemma exact_sum_5_15: "exact_sum [Fin 5, Fin 15] = Fin 20"
  by (simp add: exact_sum_def)

lemma exact_div_20_2: "exact_div (Fin 20) (Suc (Suc 0)) = Fin 10"
  by (simp add: exact_div_def)

lemma exact_div_1_1: "exact_div (Fin 1) (Suc 0) = Fin 1"
  by (simp add: exact_div_def)

lemma good_pressure: "profile_avg sample_ops (pres_i good_cycle) = Some (Fin 10)"
  by (simp add: good_cycle_def profile_avg_def any_unmasked_def nanmean_closed_form
      zero_invalid_def valid_numbers_def unmasked_def sample_ops_def
      exact_sum_5_15_0 exact_div_20_2)

lemma good_temperature: "profile_avg sample_ops (temp_i good_cycle) = None"
  by (simp add: good_cycle_def profile_avg_def any_unmasked_def)

lemma good_salinity: "profile_avg sample_ops (psal_i good_cycle) = Some (Fin 1)"
  by (simp add: good_cycle_def profile_avg_def any_unmasked_def nanmean_closed_form
      zero_invalid_def valid_numbers_def unmasked_def sample_ops_def
      exact_sum_0_1 exact_div_1_1)

theorem stored_scalars_nanmean_of_valid_numbers_witness:
  "\<not> list_all snd (pres_i good_cycle)
   \<and> pressure (make_row sample_ops ''2902746'' 2 good_cycle) = Some (Fin 10)
   \<and> fdiv sample_ops (fsum sample_ops (zero_invalid (pres_i good_cycle)))
        (length (valid_numbers (pres_i good_cycle))) = Fin 10
   \<and> list_all snd (temp_i good_cycle)
   \<and> temperature (make_row sample_ops ''2902746'' 2 good_cycle) = None
   \<and> same_unmasked (pres_i good_cycle) [(Fin 5, False), (Fin 15, False), (Fin 7, True)]
   \<and> profile_avg sample_ops [(Fin 5, False), (Fin 15, False), (Fin 7, True)] = Some (Fin 10)
   \<and> list_all (\<lambda>e. \<not> snd e \<and> fst e \<noteq> NaN) [(Fin 5, False), (Fin 15, False)]
   \<and> profile_avg sample_ops [(Fin 5, False), (Fin 15, False)] = Some (Fin 10)
   \<and> spec_mean_of_valid sample_ops [(Fin 5, False), (Fin 15, False)] = Fin 10"
proof -
  note th = stored_scalars_nanmean_of_valid_numbers
    [where ops = sample_ops and fid = "''2902746''" and n = 2 and c = good_cycle]
  have m: "\<not> list_all snd (pres_i good_cycle)" "list_all snd (temp_i good_cycle)"
    by (simp_all add: good_cycle_def)
  have s: "same_unmasked (pres_i good_cycle) [(Fin 5, False), (Fin 15, False), (Fin 7, True)]"
    by (simp add: good_cycle_def same_unmasked_def)
  have v: "list_all (\<lambda>e. \<not> snd e \<and> fst e \<noteq> NaN) [(Fin 5, False), (Fin 15, False)]"
    by simp
  from th have p: "pressure (make_row sample_ops ''2902746'' 2 good_cycle) = Some (Fin 10)"
    and t: "temperature (make_row sample_ops ''2902746'' 2 good_cycle) = None"
    by (simp_all add: good_pressure good_temperature)
  from th m(1) have "profile_avg sample_ops (pres_i good_cycle) =
      Some (fdiv sample_ops (fsum sample_ops (zero_invalid (pres_i good_cycle)))
              (length (valid_numbers (pres_i good_cycle))))"
    by blast
  then have q: "fdiv sample_ops (fsum sample_ops (zero_invalid (pres_i good_cycle)))
        (length (valid_numbers (pres_i good_cycle))) = Fin 10"
    by (simp add: good_pressure)
  from th s have "profile_avg sample_ops (pres_i good_cycle) =
      profile_avg sample_ops [(Fin 5, False), (Fin 15, False), (Fin 7, True)]"
    by blast
  then have i: "profile_avg sample_ops [(Fin 5, False), (Fin 15, False), (Fin 7, True)] = Some (Fin 10)"
    by (simp add: good_pressure)
  have e: "spec_mean_of_valid sample_ops [(Fin 5, False), (Fin 15, False)] = Fin 10"
    by (simp add: spec_mean_of_valid_def unmasked_def sample_ops_def exact_sum_5_15 exact_div_20_2)
  from th v have "profile_avg sample_ops [(Fin 5, False), (Fin 15, False)] =
      Some (spec_mean_of_valid sample_ops [(Fin 5, False), (Fin 15, False)])"
    by blast
  with e have a: "profile_avg sample_ops [(Fin 5, False), (Fin 15, False)] = Some (Fin 10)"
    by simp
  show ?thesis
    by (intro conjI m s v p t q i a e)
qed

text \<open>
  The sentence of the specification fails on a profile with an unmasked NaN: the
  salinity profile of the sample cycle has the unmasked elements NaN and 1; the row
  stores 1, while the mean of exactly the unmasked elements is NaN.
\<close>

theorem stored_scalar_not_mean_of_unmasked:
  "any_unmasked (psal_i good_cycle)
   \<and> unmasked (psal_i good_cycle) = [NaN, Fin 1]
   \<and> salinity (make_row sample_ops ''2902746'' 2 good_cycle) = Some (Fin 1)
   \<and> spec_mean_of_valid sample_ops (psal_i good_cycle) = NaN"
  by (simp add: make_row_def good_salinity)
     (simp add: good_cycle_def any_unmasked_def spec_mean_of_valid_def unmasked_def)

subsection \<open>A failure on the first cycle\<close>

text \<open>
  C6. A file whose first cycle number is masked: \<open>int(cycles[0])\<close> raises, the handler
  reads the unbound \<open>cycle\<close>, and the file is abandoned with a fatal error. The second
  cycle, which is well formed, is never attempted: nothing is printed for it and no row
  is stored.
\<close>

theorem first_cycle_failure_aborts_file:
  "process_nc_file ops (\<lambda>r. True) masked_first_file empty_state =
     empty_state\<lparr>printed :=
       [FatalError ''b.nc''
          ''cannot access local variable 'cycle' where it is not associated with a value'']\<rparr>"
  by (simp add: process_nc_file_def masked_first_file_def empty_state_def cycle_body_def
      masked_cycle_def good_cycle_def)


text \<open>The same failure later in a file is handled: the cycles after it are inserted
  (the message names the previous cycle's number).\<close>

lemma later_cycle_failure_continues:
  "process_nc_file ops (\<lambda>r. True) sample_file empty_state =
     \<lparr>db = \<lparr>committed = [(1, make_row ops ''2902746'' 2 good_cycle),
                          (2, make_row ops ''2902746'' 2 good_cycle)],
            pending = [], next_id = 3\<rparr>,
      printed = [AttemptingToInsert (make_row ops ''2902746'' 2 good_cycle),
                 ErrorOnCycle 2 ''a.nc'' ''Cannot convert masked element to a Python int.'',
                 AttemptingToInsert (make_row ops ''2902746'' 2 good_cycle)]\<rparr>"
proof -
  have g: "cycles_i good_cycle = Some 2" and m: "cycles_i masked_cycle = None"
    by (simp_all add: good_cycle_def masked_cycle_def)
  show ?thesis
    by (simp add: process_nc_file_def sample_file_def empty_state_def cycle_body_def g m
        execute_insert_def commit_def rollback_def Let_def)
qed

subsection \<open>Running the ingestor again\<close>

lemma wf_db_fresh: "wf_db d \<Longrightarrow> next_id d \<notin> set (map fst (committed d @ pending d))"
  by (auto simp: wf_db_def list_all_iff)

lemma execute_insert_wf:
  "wf_db d \<Longrightarrow>
   execute_insert accepts d r =
     (if accepts r
      then Inr (d\<lparr>pending := [(next_id d, r)], next_id := Suc (next_id d)\<rparr>)
      else Inl (ExternalError ''DataError''))"
  using wf_db_fresh[of d] by (simp add: execute_insert_def) (simp add: wf_db_def)

lemma wf_db_commit:
  "wf_db d \<Longrightarrow> wf_db (commit (d\<lparr>pending := [(next_id d, r)], next_id := Suc (next_id d)\<rparr>))"
  by (auto simp: wf_db_def commit_def list_all_iff)

lemma wf_db_rollback: "wf_db d \<Longrightarrow> rollback d = d"
  by (simp add: wf_db_def rollback_def)

lemma cycle_body_wf:
  assumes "wf_db (db st)"
  shows "case cycle_body ops accepts fid c cycle st of
           Inr (cycle', st') \<Rightarrow>
             cycle' = cycles_i c \<and> cycle' \<noteq> None \<and> wf_db (db st') \<and>
             map snd (committed (db st')) =
               map snd (committed (db st)) @ [the (cycle_row ops accepts fid c)] \<and>
             cycle_row ops accepts fid c \<noteq> None
         | Inl (x, cycle', st') \<Rightarrow>
             cycle' = (if cycles_i c = None then cycle else cycles_i c) \<and>
             db st' = db st \<and> cycle_row ops accepts fid c = None"
  using assms
  by (cases "cycles_i c")
     (auto simp: cycle_body_def execute_insert_wf cycle_row_def Let_def commit_def wf_db_commit
           intro: wf_db_commit[unfolded commit_def, simplified])

lemma map_filter_Cons:
  "List.map_filter f (x # xs) = (case f x of None \<Rightarrow> List.map_filter f xs | Some y \<Rightarrow> y # List.map_filter f xs)"
  by (simp add: List.map_filter_def split: option.splits)

lemma cycles_loop_bound:
  "wf_db (db st) \<Longrightarrow>
   \<exists>st'. cycles_loop ops accepts fid nc cs (Some m) st = Inr st' \<and> wf_db (db st') \<and>
         map snd (committed (db st')) =
           map snd (committed (db st)) @ List.map_filter (cycle_row ops accepts fid) cs"
proof (induction cs arbitrary: m st)
  case Nil
  then show ?case by (simp add: List.map_filter_def)
next
  case (Cons c cs)
  note body = cycle_body_wf[OF Cons.prems, where ops=ops and accepts=accepts and fid=fid and c=c and cycle="Some m"]
  show ?case
  proof (cases "cycle_body ops accepts fid c (Some m) st")
    case (Inr ok)
    obtain cycle' st1 where ok: "ok = (cycle', st1)" by (cases ok)
    with body Inr obtain n where n: "cycle' = Some n" and wf1: "wf_db (db st1)"
      and rows1: "map snd (committed (db st1)) =
               map snd (committed (db st)) @ [the (cycle_row ops accepts fid c)]"
      and some: "cycle_row ops accepts fid c \<noteq> None"
      by auto
    from Cons.IH[OF wf1, of n] obtain st' where
      "cycles_loop ops accepts fid nc cs (Some n) st1 = Inr st'" "wf_db (db st')"
      "map snd (committed (db st')) =
           map snd (committed (db st1)) @ List.map_filter (cycle_row ops accepts fid) cs"
      by blast
    with Inr ok n rows1 some show ?thesis
      by (auto simp: map_filter_Cons)
  next
    case (Inl err)
    obtain x cycle' st1 where err: "err = (x, cycle', st1)" by (cases err)
    with body Inl obtain n where n: "cycle' = Some n" and db1: "db st1 = db st"
      and none: "cycle_row ops accepts fid c = None"
      by (auto split: if_splits)
    let ?st2 = "st1\<lparr>printed := printed st1 @ [ErrorOnCycle n nc (str_exn x)],
                      db := rollback (db st1)\<rparr>"
    have db2: "db ?st2 = db st" using db1 Cons.prems by (simp add: wf_db_rollback)
    then have "wf_db (db ?st2)" using Cons.prems by simp
    from Cons.IH[OF this, of n] obtain st' where
      "cycles_loop ops accepts fid nc cs (Some n) ?st2 = Inr st'" "wf_db (db st')"
      "map snd (committed (db st')) =
           map snd (committed (db ?st2)) @ List.map_filter (cycle_row ops accepts fid) cs"
      by blast
    with Inl err n none db2 show ?thesis
      by (auto simp: map_filter_Cons)
  qed
qed


lemma cycles_loop_rows:
  assumes "wf_db (db st)"
  shows "\<exists>st'. (cycles_loop ops accepts fid nc cs None st = Inr st' \<or>
                (\<exists>x. cycles_loop ops accepts fid nc cs None st = Inl (x, st'))) \<and>
               wf_db (db st') \<and>
               map snd (committed (db st')) =
                 map snd (committed (db st)) @ loop_rows ops accepts fid cs"
proof (cases cs)
  case Nil
  with assms show ?thesis by (simp add: loop_rows_def)
next
  case (Cons c cs')
  note body = cycle_body_wf[OF assms, where ops=ops and accepts=accepts and fid=fid and c=c and cycle=None]
  show ?thesis
  proof (cases "cycle_body ops accepts fid c None st")
    case (Inr ok)
    obtain cycle' st1 where ok: "ok = (cycle', st1)" by (cases ok)
    with body Inr obtain n where n: "cycle' = Some n" "cycles_i c = Some n"
      and wf1: "wf_db (db st1)"
      and rows1: "map snd (committed (db st1)) =
               map snd (committed (db st)) @ [the (cycle_row ops accepts fid c)]"
      and some: "cycle_row ops accepts fid c \<noteq> None"
      by auto
    from cycles_loop_bound[OF wf1, of ops accepts fid nc cs' n] obtain st' where
      "cycles_loop ops accepts fid nc cs' (Some n) st1 = Inr st'" "wf_db (db st')"
      "map snd (committed (db st')) =
           map snd (committed (db st1)) @ List.map_filter (cycle_row ops accepts fid) cs'"
      by blast
    with Inr ok n rows1 some Cons show ?thesis
      by (auto simp: map_filter_Cons loop_rows_def)
  next
    case (Inl err)
    obtain x cycle' st1 where err: "err = (x, cycle', st1)" by (cases err)
    show ?thesis
    proof (cases "cycles_i c")
      case None
      with body Inl err have "cycle' = None" "db st1 = db st" by auto
      with Inl err None Cons assms show ?thesis
        by (auto simp: loop_rows_def)
    next
      case (Some n)
      with body Inl err have n: "cycle' = Some n" and db1: "db st1 = db st"
        and none: "cycle_row ops accepts fid c = None"
        by auto
      let ?st2 = "st1\<lparr>printed := printed st1 @ [ErrorOnCycle n nc (str_exn x)],
                      db := rollback (db st1)\<rparr>"
      have db2: "db ?st2 = db st" using db1 assms by (simp add: wf_db_rollback)
      then have "wf_db (db ?st2)" using assms by simp
      from cycles_loop_bound[OF this, of ops accepts fid nc cs' n] obtain st' where
        "cycles_loop ops accepts fid nc cs' (Some n) ?st2 = Inr st'" "wf_db (db st')"
        "map snd (committed (db st')) =
           map snd (committed (db ?st2)) @ List.map_filter (cycle_row ops accepts fid) cs'"
        by blast
      with Inl err n none db2 Some Cons show ?thesis
        by (auto simp: map_filter_Cons loop_rows_def)
    qed
  qed
qed

lemma process_nc_file_rows:
  assumes "wf_db (db st)"
  shows "wf_db (db (process_nc_file ops accepts f st)) \<and>
         map snd (committed (db (process_nc_file ops accepts f st))) =
           map snd (committed (db st)) @ file_rows ops accepts f"
proof (cases "dataset f")
  case (Inl x)
  with assms show ?thesis by (simp add: process_nc_file_def file_rows_def)
next
  case (Inr ds)
  from cycles_loop_rows[OF assms, of ops accepts "PLATFORM_NUMBER ds" "nc_path f" "profiles ds"]
  obtain st' where
    run: "cycles_loop ops accepts (PLATFORM_NUMBER ds) (nc_path f) (profiles ds) None st = Inr st' \<or>
          (\<exists>x. cycles_loop ops accepts (PLATFORM_NUMBER ds) (nc_path f) (profiles ds) None st = Inl (x, st'))"
    and wf: "wf_db (db st')"
    and rows: "map snd (committed (db st')) =
                 map snd (committed (db st)) @ loop_rows ops accepts (PLATFORM_NUMBER ds) (profiles ds)"
    by blast
  from run wf rows Inr show ?thesis
    by (auto simp: process_nc_file_def file_rows_def)
qed

lemma foldl_process_rows:
  "wf_db (db st) \<Longrightarrow>
   wf_db (db (foldl (\<lambda>s f. process_nc_file ops accepts f s) st fs)) \<and>
   map snd (committed (db (foldl (\<lambda>s f. process_nc_file ops accepts f s) st fs))) =
     map snd (committed (db st)) @ concat (map (file_rows ops accepts) fs)"
proof (induction fs arbitrary: st)
  case Nil
  then show ?case by simp
next
  case (Cons f fs)
  from process_nc_file_rows[OF Cons.prems, of ops accepts f] Cons.IH[of "process_nc_file ops accepts f st"]
  show ?case by simp
qed

lemma ingest_folder_rows:
  "wf_db (db st) \<Longrightarrow>
   wf_db (db (ingest_folder ops accepts files st)) \<and>
   map snd (committed (db (ingest_folder ops accepts files st))) =
     map snd (committed (db st)) @ folder_rows ops accepts files"
  unfolding ingest_folder_def folder_rows_def by (rule foldl_process_rows)

text \<open>
  C9. From a table as the program leaves it, ingesting a folder adds the rows of its
  files (one row per cycle that converts and is accepted) whatever the table already
  holds; so ingesting the same folder a second time adds the same rows once more, and
  the row count grows by their number again.
\<close>

theorem rerun_inserts_duplicate_rows:
  assumes "wf_db (db st)"
  shows "map snd (committed (db (ingest_folder ops accepts files (ingest_folder ops accepts files st)))) =
           map snd (committed (db st)) @ folder_rows ops accepts files @ folder_rows ops accepts files
       \<and> length (committed (db (ingest_folder ops accepts files (ingest_folder ops accepts files st)))) =
           length (committed (db (ingest_folder ops accepts files st))) + length (folder_rows ops accepts files)"
proof -
  let ?st1 = "ingest_folder ops accepts files st"
  from ingest_folder_rows[OF assms, of ops accepts files] have
    wf1: "wf_db (db ?st1)" and
    r1: "map snd (committed (db ?st1)) = map snd (committed (db st)) @ folder_rows ops accepts files"
    by simp_all
  from ingest_folder_rows[OF wf1, of ops accepts files] have
    r2: "map snd (committed (db (ingest_folder ops accepts files ?st1))) =
           map snd (committed (db ?st1)) @ folder_rows ops accepts files"
    by simp
  from arg_cong[OF r2, of length] have
    "length (committed (db (ingest_folder ops accepts files ?st1))) =
       length (committed (db ?st1)) + length (folder_rows ops accepts files)"
    by simp
  with r1 r2 show ?thesis by simp
qed

lemma sample_folder_rows:
  "folder_rows sample_ops (\<lambda>r. True) [sample_file] =
     [make_row sample_ops ''2902746'' 2 good_cycle, make_row sample_ops ''2902746'' 2 good_cycle]"
  by (simp add: folder_rows_def file_rows_def loop_rows_def sample_file_def endswith_def
      List.map_filter_def cycle_row_def masked_cycle_def)
     (simp add: good_cycle_def)

theorem rerun_inserts_duplicate_rows_witness:
  "wf_db (db empty_state)
   \<and> map snd (committed (db (ingest_folder sample_ops (\<lambda>r. True) [sample_file]
                                (ingest_folder sample_ops (\<lambda>r. True) [sample_file] empty_state)))) =
       [make_row sample_ops ''2902746'' 2 good_cycle, make_row sample_ops ''2902746'' 2 good_cycle,
        make_row sample_ops ''2902746'' 2 good_cycle, make_row sample_ops ''2902746'' 2 good_cycle]
   \<and> length (committed (db (ingest_folder sample_ops (\<lambda>r. True) [sample_file]
                                (ingest_folder sample_ops (\<lambda>r. True) [sample_file] empty_state)))) =
       length (committed (db (ingest_folder sample_ops (\<lambda>r. True) [sample_file] empty_state))) + 2"
proof -
  have wf: "wf_db (db empty_state)"
    by (simp add: wf_db_def empty_state_def)
  have e: "committed (db empty_state) = []"
    by (simp add: empty_state_def)
  from rerun_inserts_duplicate_rows [OF wf, of sample_ops "\<lambda>r. True" "[sample_file]"] wf e
  show ?thesis by (simp add: sample_folder_rows)
qed


section \<open>The pipeline\<close>

subsection \<open>Rows of a page\<close>

lemma summarize_rows_length: "length (fst (summarize_rows e i rows)) = length rows"
proof (induction rows arbitrary: i)
  case Nil
  then show ?case by simp
next
  case (Cons r rows)
  obtain d w where a: "summarize_row e i r = (d, w)" by (cases "summarize_row e i r")
  obtain ds ws where b: "summarize_rows e (Suc i) rows = (ds, ws)"
    by (cases "summarize_rows e (Suc i) rows")
  from Cons.IH[of "Suc i"] b have "length ds = length rows" by simp
  with a b show ?case by simp
qed

lemma fetch_ok:
  "read_sql_query e p = Inr df \<Longrightarrow> encode_and_add e p (fst (summarize_rows e 0 df)) = None \<Longrightarrow>
   fst (fetch_process_and_index_data e p) = None"
  by (auto simp: fetch_process_and_index_data_def split: prod.splits)

lemma summarize_rows_eq:
  "summarize_rows e j rows =
     (map (\<lambda>i. fst (summarize_row e (j + i) (rows ! i))) [0..<length rows],
      concat (map (\<lambda>i. snd (summarize_row e (j + i) (rows ! i))) [0..<length rows]))"
proof (induction rows arbitrary: j)
  case Nil
  then show ?case by simp
next
  case (Cons r rows)
  obtain d w where a: "summarize_row e j r = (d, w)" by (cases "summarize_row e j r")
  show ?case
    by (simp add: a Cons.IH[of "Suc j"] map_upt_Suc del: upt_Suc)
qed

lemma summarize_rows_nth:
  "i < length rows \<Longrightarrow> fst (summarize_rows e 0 rows) ! i = fst (summarize_row e i (rows ! i))"
  by (simp add: summarize_rows_eq)

lemma summarize_row_warnings:
  "w \<in> set (snd (summarize_row e j r)) \<Longrightarrow> \<exists>m. w = Warning j m"
  by (auto simp: summarize_row_def split: sum.splits)

lemma summarize_rows_warning_iff:
  assumes "i < length rows"
  shows "Warning i m \<in> set (snd (summarize_rows e 0 rows)) \<longleftrightarrow>
         Warning i m \<in> set (snd (summarize_row e i (rows ! i)))"
proof
  assume "Warning i m \<in> set (snd (summarize_rows e 0 rows))"
  then obtain k where k: "k < length rows"
    and w: "Warning i m \<in> set (snd (summarize_row e k (rows ! k)))"
    by (auto simp: summarize_rows_eq)
  from summarize_row_warnings[OF w] have "k = i" by simp
  with w show "Warning i m \<in> set (snd (summarize_row e i (rows ! i)))" by simp
next
  assume "Warning i m \<in> set (snd (summarize_row e i (rows ! i)))"
  with assms show "Warning i m \<in> set (snd (summarize_rows e 0 rows))"
    by (auto simp: summarize_rows_eq)
qed

lemma fetch_eq:
  "read_sql_query e p = Inr df \<Longrightarrow> df \<noteq> [] \<Longrightarrow>
   fetch_process_and_index_data e p =
     (encode_and_add e p (fst (summarize_rows e 0 df)),
      snd (summarize_rows e 0 df) @
        (if encode_and_add e p (fst (summarize_rows e 0 df)) = None then [Indexed] else []))"
  by (auto simp: fetch_process_and_index_data_def split: prod.splits option.splits)

text \<open>
  C7 (amended). For row \<open>i\<close> of a page: when the call to the language model raises, its
  reply does not decode as JSON, or the decoded reply is not an object (it has no
  \<open>get\<close>), the document recorded at position \<open>i\<close> is
  \<open>Documentation failed for record i.\<close> and a warning for record \<open>i\<close> is printed;
  when the reply decodes to an object without the \<open>summary\<close> field, the document at
  position \<open>i\<close> is \<open>Summary not available.\<close> and no warning for record \<open>i\<close> is
  printed; when the field is there, the document is its value. Whatever happens to a
  row, the page has one document per row, each computed from its own row, and exactly
  these documents are handed to the indexing step: the page raises only what the
  indexing raises.
\<close>

theorem page_summaries_placeholders:
  assumes "i < length df"
  shows "length (fst (summarize_rows e 0 df)) = length df
   \<and> (\<forall>x. generate_content e (df ! i) = Inl x \<longrightarrow>
         fst (summarize_rows e 0 df) ! i = failed_doc i \<and>
         Warning i (str_exn x) \<in> set (snd (summarize_rows e 0 df)))
   \<and> (\<forall>t x. generate_content e (df ! i) = Inr t \<and> loads e (cleaned_response t) = Inl x \<longrightarrow>
         fst (summarize_rows e 0 df) ! i = failed_doc i \<and>
         Warning i (str_exn x) \<in> set (snd (summarize_rows e 0 df)))
   \<and> (\<forall>t v x. generate_content e (df ! i) = Inr t \<and> loads e (cleaned_response t) = Inr v
         \<and> py_get v ''summary'' (JStr ''Summary not available.'') = Inl x \<longrightarrow>
         fst (summarize_rows e 0 df) ! i = failed_doc i \<and>
         Warning i (str_exn x) \<in> set (snd (summarize_rows e 0 df)))
   \<and> (\<forall>t kvs. generate_content e (df ! i) = Inr t \<and> loads e (cleaned_response t) = Inr (JObj kvs)
         \<and> map_of kvs ''summary'' = None \<longrightarrow>
         fst (summarize_rows e 0 df) ! i = JStr ''Summary not available.'' \<and>
         (\<forall>m. Warning i m \<notin> set (snd (summarize_rows e 0 df))))
   \<and> (\<forall>t kvs v. generate_content e (df ! i) = Inr t \<and> loads e (cleaned_response t) = Inr (JObj kvs)
         \<and> map_of kvs ''summary'' = Some v \<longrightarrow>
         fst (summarize_rows e 0 df) ! i = v \<and>
         (\<forall>m. Warning i m \<notin> set (snd (summarize_rows e 0 df))))
   \<and> (read_sql_query e p = Inr df \<longrightarrow>
         fetch_process_and_index_data e p =
           (encode_and_add e p (fst (summarize_rows e 0 df)),
            snd (summarize_rows e 0 df) @
              (if encode_and_add e p (fst (summarize_rows e 0 df)) = None then [Indexed] else [])))"
proof -
  from assms have ne: "df \<noteq> []" by auto
  note n = summarize_rows_nth[OF assms, of e]
  note w = summarize_rows_warning_iff[OF assms, of _ e]
  show ?thesis
    unfolding n w
    by (auto simp: summarize_row_def fetch_eq[OF _ ne] summarize_rows_eq[of e 0 df])
qed

lemma cleaned_no_summary: "cleaned_response ''no summary'' = ''no summary''"
  by (simp add: cleaned_response_def strip_def is_space_def)

lemma cleaned_junk: "cleaned_response ''junk'' = ''junk''"
  by (simp add: cleaned_response_def strip_def is_space_def)

lemma cleaned_row: "cleaned_response ''row'' = ''row''"
  by (simp add: cleaned_response_def strip_def is_space_def)

lemma sample_rows:
  "summarize_rows sample_pipeline 0 [''row'', ''no summary'', ''junk''] =
     ([JStr ''A float.'', JStr ''Summary not available.'', failed_doc 2],
      [Warning 2 ''Expecting value''])"
  by (simp add: sample_pipeline_def summarize_row_def cleaned_no_summary cleaned_junk cleaned_row
      numeral_2_eq_2)

text \<open>
  The sentence of the specification fails on a reply that lacks the field: on the sample
  page the row at index 1 decodes to an object without a summary; the placeholder is
  recorded for it, but the only line printed for the page is the warning of row 2.
\<close>

theorem missing_summary_prints_nothing:
  "generate_content sample_pipeline ([''row'', ''no summary'', ''junk''] ! 1) = Inr ''no summary''
   \<and> loads sample_pipeline (cleaned_response ''no summary'') =
        Inr (JObj [(''region'', JStr ''Indian Ocean'')])
   \<and> map_of [(''region'', JStr ''Indian Ocean'')] ''summary'' = None
   \<and> fst (summarize_rows sample_pipeline 0 [''row'', ''no summary'', ''junk'']) ! 1 =
        JStr ''Summary not available.''
   \<and> snd (summarize_rows sample_pipeline 0 [''row'', ''no summary'', ''junk'']) =
        [Warning 2 ''Expecting value'']
   \<and> summarize_row sample_pipeline 1 ''no summary'' = (JStr ''Summary not available.'', [])"
proof -
  have a: "fst (summarize_rows sample_pipeline 0 [''row'', ''no summary'', ''junk'']) ! 1 =
        JStr ''Summary not available.''"
    and b: "snd (summarize_rows sample_pipeline 0 [''row'', ''no summary'', ''junk'']) =
        [Warning 2 ''Expecting value'']"
    unfolding sample_rows by simp_all
  have c: "generate_content sample_pipeline ([''row'', ''no summary'', ''junk''] ! 1) = Inr ''no summary''"
    and d: "loads sample_pipeline (cleaned_response ''no summary'') =
        Inr (JObj [(''region'', JStr ''Indian Ocean'')])"
    and e: "map_of [(''region'', JStr ''Indian Ocean'')] ''summary'' = None"
    and f: "summarize_row sample_pipeline 1 ''no summary'' = (JStr ''Summary not available.'', [])"
    by (simp_all add: sample_pipeline_def summarize_row_def cleaned_no_summary)
  show ?thesis
    by (intro conjI a b c d e f)
qed

lemma sample_page_1: "fst (fetch_process_and_index_data sample_pipeline 1) = None"
proof -
  have r: "read_sql_query sample_pipeline 1 = Inr [''row'', ''no summary'', ''junk'']"
    and a: "encode_and_add sample_pipeline 1 docs = None" for docs
    by (simp_all add: sample_pipeline_def)
  show ?thesis
    by (rule fetch_ok[OF r a])
qed

theorem page_summaries_placeholders_witness:
  "(2 :: nat) < length [''row'', ''no summary'', ''junk'']
   \<and> generate_content sample_pipeline ([''row'', ''no summary'', ''junk''] ! 2) = Inr ''junk''
   \<and> loads sample_pipeline (cleaned_response ''junk'') = Inl (JSONDecodeError ''Expecting value'')
   \<and> fst (summarize_rows sample_pipeline 0 [''row'', ''no summary'', ''junk'']) ! 2 = failed_doc 2
   \<and> Warning 2 ''Expecting value'' \<in>
        set (snd (summarize_rows sample_pipeline 0 [''row'', ''no summary'', ''junk'']))
   \<and> length (fst (summarize_rows sample_pipeline 0 [''row'', ''no summary'', ''junk''])) = 3
   \<and> read_sql_query sample_pipeline 1 = Inr [''row'', ''no summary'', ''junk'']
   \<and> fetch_process_and_index_data sample_pipeline 1 = (None, [Warning 2 ''Expecting value'', Indexed])"
proof -
  let ?df = "[''row'', ''no summary'', ''junk'']"
  have i: "(2 :: nat) < length ?df" by simp
  have g: "generate_content sample_pipeline (?df ! 2) = Inr ''junk''"
    by (simp add: sample_pipeline_def)
  have l: "loads sample_pipeline (cleaned_response ''junk'') = Inl (JSONDecodeError ''Expecting value'')"
    by (simp add: sample_pipeline_def cleaned_junk)
  have r: "read_sql_query sample_pipeline 1 = Inr ?df"
    and a: "encode_and_add sample_pipeline 1 docs = None" for docs
    by (simp_all add: sample_pipeline_def)
  note th = page_summaries_placeholders [OF i, where e = sample_pipeline and p = 1]
  from th have n: "length (fst (summarize_rows sample_pipeline 0 ?df)) = length ?df"
    by blast
  from th g l have d: "fst (summarize_rows sample_pipeline 0 ?df) ! 2 = failed_doc 2 \<and>
      Warning 2 (str_exn (JSONDecodeError ''Expecting value'')) \<in>
        set (snd (summarize_rows sample_pipeline 0 ?df))"
    by blast
  from th r have f: "fetch_process_and_index_data sample_pipeline 1 =
      (encode_and_add sample_pipeline 1 (fst (summarize_rows sample_pipeline 0 ?df)),
       snd (summarize_rows sample_pipeline 0 ?df) @
         (if encode_and_add sample_pipeline 1 (fst (summarize_rows sample_pipeline 0 ?df)) = None
          then [Indexed] else []))"
    by blast
  from f have f': "fetch_process_and_index_data sample_pipeline 1 =
      (None, [Warning 2 ''Expecting value'', Indexed])"
    unfolding sample_rows a by simp
  from d have d1: "fst (summarize_rows sample_pipeline 0 ?df) ! 2 = failed_doc 2"
    and d2: "Warning 2 ''Expecting value'' \<in> set (snd (summarize_rows sample_pipeline 0 ?df))"
    by simp_all
  from n have n': "length (fst (summarize_rows sample_pipeline 0 ?df)) = 3" by simp
  show ?thesis
    by (intro conjI i g l d1 d2 n' r f')
qed

subsection \<open>The checkpoint\<close>

lemma dropWhile_none: "\<forall>c \<in> set s. \<not> P c \<Longrightarrow> dropWhile P s = s"
  by (cases s) auto

lemma strip_no_space: "\<forall>c \<in> set s. \<not> is_space c \<Longrightarrow> strip s = s"
  by (simp add: strip_def dropWhile_none)

lemma digit_not_space: "is_digit c \<Longrightarrow> \<not> is_space c"
  by (auto simp: is_digit_def is_space_def Let_def)

lemma str_nat_no_space: "\<forall>c \<in> set (str_nat n). \<not> is_space c"
  using str_nat_digits[of n] by (auto simp: list_all_iff digit_not_space)

lemma str_int_no_space: "\<forall>c \<in> set (str_int i). \<not> is_space c"
  using str_nat_no_space by (auto simp: str_int_def is_space_def)

lemma strip_str_int: "strip (str_int i) = str_int i"
  by (rule strip_no_space[OF str_int_no_space])

lemma str_nat_Cons: "\<exists>c cs. str_nat n = c # cs \<and> is_digit c"
  using str_nat_digits[of n] str_nat_nonempty[of n] by (cases "str_nat n") auto

lemma py_int_str_int: "py_int (str_int i) = Some i"
proof (cases "i < 0")
  case True
  then show ?thesis
    by (simp add: py_int_def strip_str_int) (simp add: str_int_def parse_nat_str_nat)
next
  case False
  obtain c cs where c: "str_nat (nat i) = c # cs" "is_digit c"
    using str_nat_Cons by blast
  then have "c \<noteq> CHR ''-''" "c \<noteq> CHR ''+''"
    by (auto simp: is_digit_def)
  moreover have "parse_nat (c # cs) = Some (nat i)"
    using parse_nat_str_nat[of "nat i"] c by simp
  moreover have "strip (str_int i) = c # cs"
    using strip_str_int[of i] False c by (simp add: str_int_def)
  ultimately show ?thesis using False
    by (simp add: py_int_def)
qed

lemma get_start_page_logged: "get_start_page (log_completed_page n) = n + 1"
  by (simp add: get_start_page_def log_completed_page_def strip_str_int py_int_str_int)

lemma driver_loop_all_ok:
  "\<forall>p \<in> set ps. page_ok e p \<Longrightarrow>
   progress_file (driver_loop e ps st) =
     (if ps = [] then progress_file st else log_completed_page (last ps)) \<and>
   attempted (driver_loop e ps st) = attempted st @ ps"
proof (induction ps arbitrary: st)
  case Nil
  then show ?case by simp
next
  case (Cons p ps)
  then obtain out where f: "fetch_process_and_index_data e p = (None, out)"
    by (cases "fetch_process_and_index_data e p") (auto simp: page_ok_def)
  from Cons.prems have rest: "\<forall>p \<in> set ps. page_ok e p" by simp
  show ?case
    using Cons.IH[OF rest] f by simp
qed

lemma driver_loop_fails_at:
  "\<forall>p \<in> set ps. page_ok e p \<Longrightarrow> \<not> page_ok e k \<Longrightarrow>
   progress_file (driver_loop e (ps @ k # rest) st) =
     (if ps = [] then progress_file st else log_completed_page (last ps)) \<and>
   attempted (driver_loop e (ps @ k # rest) st) = attempted st @ ps @ [k]"
proof (induction ps arbitrary: st)
  case Nil
  then obtain x out where f: "fetch_process_and_index_data e k = (Some x, out)"
    by (cases "fetch_process_and_index_data e k") (auto simp: page_ok_def)
  then show ?case by simp
next
  case (Cons p ps)
  then obtain out where f: "fetch_process_and_index_data e p = (None, out)"
    by (cases "fetch_process_and_index_data e p") (auto simp: page_ok_def)
  from Cons.prems have rest: "\<forall>p \<in> set ps. page_ok e p" by simp
  show ?case
    using Cons.IH[OF rest Cons.prems(2)] f by simp
qed

lemma last_upto: "i \<le> j \<Longrightarrow> last [i..j] = j"
  by (simp add: upto_rec2)


text \<open>
  C2 (amended). A run starts at the page after the one recorded in the progress file
  (page 1 when the file is absent). If every page from the start page to the last
  completes, the file ends up holding exactly the last page number. If page \<open>k\<close> is
  the first to raise, the pages after it are not attempted and the file is left as it
  was before page \<open>k\<close>: it holds \<open>k - 1\<close> when this run completed a page, and is
  unchanged (absent on a first run, where \<open>k = 1\<close>) when \<open>k\<close> is the start page; in
  both cases the next run starts at page \<open>k\<close>.
\<close>

theorem checkpoint_after_run:
  assumes "total_records \<noteq> 0"
  shows "(get_start_page pf \<le> total_pages total_records \<and>
          (\<forall>p \<in> {get_start_page pf..total_pages total_records}. page_ok e p) \<longrightarrow>
            progress_file (run_pipeline e total_records pf) =
              Some (str_int (total_pages total_records)) \<and>
            attempted (run_pipeline e total_records pf) =
              [get_start_page pf..total_pages total_records])
       \<and> (\<forall>k. get_start_page pf \<le> k \<and> k \<le> total_pages total_records \<and>
              (\<forall>p \<in> {get_start_page pf..<k}. page_ok e p) \<and> \<not> page_ok e k \<longrightarrow>
            progress_file (run_pipeline e total_records pf) =
              (if k = get_start_page pf then pf else Some (str_int (k - 1))) \<and>
            attempted (run_pipeline e total_records pf) = [get_start_page pf..k] \<and>
            get_start_page (progress_file (run_pipeline e total_records pf)) = k)"
proof (intro conjI impI allI)
  let ?s = "get_start_page pf" and ?t = "total_pages total_records"
  let ?st = "\<lparr>progress_file = pf, attempted = [], printed_lines = []\<rparr>"
  have run: "run_pipeline e total_records pf = driver_loop e [?s..?t] ?st"
    using assms by (simp add: run_pipeline_def)
  {
    assume a: "?s \<le> ?t \<and> (\<forall>p \<in> {?s..?t}. page_ok e p)"
    then have ok: "\<forall>p \<in> set [?s..?t]. page_ok e p" by simp
    from a have ne: "[?s..?t] \<noteq> []" by simp
    from driver_loop_all_ok[OF ok, of ?st] ne a
    show "progress_file (run_pipeline e total_records pf) = Some (str_int ?t)"
      and "attempted (run_pipeline e total_records pf) = [?s..?t]"
      by (simp_all add: run last_upto log_completed_page_def)
  }
  fix k
  assume b: "?s \<le> k \<and> k \<le> ?t \<and> (\<forall>p \<in> {?s..<k}. page_ok e p) \<and> \<not> page_ok e k"
  then have split: "[?s..?t] = [?s..k - 1] @ k # [k + 1..?t]"
    by (simp add: upto_split3)
  from b have ok: "\<forall>p \<in> set [?s..k - 1]. page_ok e p" by auto
  from b have nk: "\<not> page_ok e k" by simp
  note d = driver_loop_fails_at[OF ok nk, of "[k + 1..?t]" ?st]
  have pf': "progress_file (run_pipeline e total_records pf) =
              (if k = ?s then pf else Some (str_int (k - 1)))"
  proof (cases "k = ?s")
    case True
    with d show ?thesis by (simp add: run split)
  next
    case False
    with b have "?s \<le> k - 1" by simp
    then have "[?s..k - 1] \<noteq> []" "last [?s..k - 1] = k - 1"
      by (simp_all add: last_upto)
    with d False show ?thesis by (simp add: run split log_completed_page_def)
  qed
  then show "progress_file (run_pipeline e total_records pf) =
              (if k = ?s then pf else Some (str_int (k - 1)))" .
  from b have "[?s..k] = [?s..k - 1] @ [k]" by (simp add: upto_rec2)
  with d show "attempted (run_pipeline e total_records pf) = [?s..k]"
    by (simp add: run split)
  show "get_start_page (progress_file (run_pipeline e total_records pf)) = k"
  proof (cases "k = ?s")
    case True
    with pf' show ?thesis by simp
  next
    case False
    with pf' get_start_page_logged[of "k - 1"] show ?thesis
      by (simp add: log_completed_page_def)
  qed
qed


lemma sample_page_ok: "p \<noteq> 3 \<Longrightarrow> page_ok sample_pipeline p"
proof -
  assume "p \<noteq> 3"
  then have r: "read_sql_query sample_pipeline p = Inr [''row'', ''no summary'', ''junk'']"
    and a: "encode_and_add sample_pipeline p docs = None" for docs
    by (simp_all add: sample_pipeline_def)
  show ?thesis
    unfolding page_ok_def by (rule fetch_ok[OF r a])
qed

lemma sample_page_3: "\<not> page_ok sample_pipeline 3"
  by (simp add: page_ok_def fetch_process_and_index_data_def sample_pipeline_def)

lemma failing_page: "\<not> page_ok failing_pipeline p"
  by (simp add: page_ok_def fetch_process_and_index_data_def failing_pipeline_def
      sample_pipeline_def)

lemma str_int_2: "str_int 2 = ''2''"
  by code_simp

lemma upto_1_3: "[1..3] = [1, 2, 3]"
  by code_simp

lemma upto_1_2: "[1..2] = [1, 2]"
  by code_simp

theorem checkpoint_after_run_witness:
  "(450 :: int) \<noteq> 0
   \<and> get_start_page None = 1 \<and> total_pages 450 = 5
   \<and> page_ok sample_pipeline 1 \<and> page_ok sample_pipeline 2 \<and> \<not> page_ok sample_pipeline 3
   \<and> progress_file (run_pipeline sample_pipeline 450 None) = Some ''2''
   \<and> attempted (run_pipeline sample_pipeline 450 None) = [1, 2, 3]
   \<and> get_start_page (progress_file (run_pipeline sample_pipeline 450 None)) = 3
   \<and> total_pages 150 = 2
   \<and> progress_file (run_pipeline sample_pipeline 150 None) = Some ''2''
   \<and> attempted (run_pipeline sample_pipeline 150 None) = [1, 2]"
proof -
  have s: "get_start_page None = 1" by (simp add: get_start_page_def)
  have t: "total_pages 450 = 5" "total_pages 150 = 2" by (simp_all add: total_pages_def)
  have ok12: "\<forall>p \<in> {1..<3}. page_ok sample_pipeline p"
    and ok2: "\<forall>p \<in> {1..2}. page_ok sample_pipeline p"
    by (auto intro: sample_page_ok)
  have nz: "(450 :: int) \<noteq> 0" "(150 :: int) \<noteq> 0" by simp_all
  note th1 = checkpoint_after_run
    [where total_records = 450 and pf = None and e = sample_pipeline, OF nz(1)]
  note th2 = checkpoint_after_run
    [where total_records = 150 and pf = None and e = sample_pipeline, OF nz(2)]
  have h1: "get_start_page None \<le> 3 \<and> 3 \<le> total_pages 450 \<and>
       (\<forall>p \<in> {get_start_page None..<3}. page_ok sample_pipeline p) \<and> \<not> page_ok sample_pipeline 3"
    using s t ok12 sample_page_3 by simp
  have h2: "get_start_page None \<le> total_pages 150 \<and>
       (\<forall>p \<in> {get_start_page None..total_pages 150}. page_ok sample_pipeline p)"
    using s t ok2 by simp
  note r = th1[THEN conjunct2, rule_format, OF h1]
  have a: "progress_file (run_pipeline sample_pipeline 450 None) = Some ''2''"
    "attempted (run_pipeline sample_pipeline 450 None) = [1, 2, 3]"
    using r by (simp_all add: s str_int_2 upto_1_3)
  have a3: "get_start_page (progress_file (run_pipeline sample_pipeline 450 None)) = 3"
    using r by blast
  from th2[THEN conjunct1, rule_format, OF h2] have b:
    "progress_file (run_pipeline sample_pipeline 150 None) = Some ''2''"
    "attempted (run_pipeline sample_pipeline 150 None) = [1, 2]"
    by (simp_all add: s t str_int_2 upto_1_2)
  have p1: "page_ok sample_pipeline 1" and p2: "page_ok sample_pipeline 2"
    by (simp_all add: sample_page_ok)
  show ?thesis
    by (intro conjI a a3 b s t p1 p2 sample_page_3) simp
qed

text \<open>
  The sentence of the specification fails for \<open>k = 1\<close> on a first run: page 1 raises, and there is
  no progress file afterwards, rather than one that holds 0.
\<close>

theorem first_page_failure_leaves_no_checkpoint:
  "get_start_page None = 1
   \<and> \<not> page_ok failing_pipeline 1
   \<and> attempted (run_pipeline failing_pipeline 100 None) = [1]
   \<and> progress_file (run_pipeline failing_pipeline 100 None) = None
   \<and> progress_file (run_pipeline failing_pipeline 100 None) \<noteq> Some (str_int (1 - 1))"
proof -
  have f: "fetch_process_and_index_data failing_pipeline 1 =
             (Some (ExternalError ''connection refused''), [ErrorFetching ''connection refused''])"
    by (simp add: fetch_process_and_index_data_def failing_pipeline_def sample_pipeline_def)
  have s: "get_start_page None = 1" by (simp add: get_start_page_def)
  have t: "total_pages 100 = 1" by (simp add: total_pages_def)
  show ?thesis
    using failing_page[of 1] by (simp add: run_pipeline_def s t f)
qed


end
